theory Spec2Isabelle
  imports Complex_Main "HOL-Library.Sublist"
begin

section \<open>Configuration resolution of the todo API\<close>

text \<open>
  The repository holds the module \<^verbatim>\<open>config/index.ts\<close> in several variants. Two of them
  are embedded here:
  \<^item> the combined variant (\<^verbatim>\<open>src/api/src/config/index.ts\<close>): \<^verbatim>\<open>getConfig\<close> loads the
    local file outside production, then populates the environment from Key Vault and
    from App Configuration;
  \<^item> the reference-resolving variant (second part of the file stored as
    \<^verbatim>\<open>cosmos-mongo-account.bicep\<close>): \<^verbatim>\<open>getConfig\<close> branches on \<^verbatim>\<open>NODE_ENV\<close>, and
    \<^verbatim>\<open>populateEnvironmentFromAppConfig\<close> resolves Key Vault references. Its constants carry
    the suffix \<open>_kvref\<close> where the name is taken by the combined variant.
  A third variant hands the enumeration and the references to the library
  \<^verbatim>\<open>@azure/app-configuration-provider\<close>; it is not embedded.

  The module is asynchronous but strictly sequential (every call is awaited), so it is
  embedded as functions that pass the state explicitly: the process environment, the
  logger's output and the trace of calls made to the outside.
\<close>

subsection \<open>JavaScript values\<close>

text \<open>
  A thrown value: the error's \<^verbatim>\<open>name\<close> and \<^verbatim>\<open>message\<close>. \<^verbatim>\<open>new Error(m)\<close> is
  \<open>JsError ''Error'' m\<close>.
\<close>

datatype js_error = JsError string string

text \<open>The template literal \<^verbatim>\<open>${err}\<close> calls \<^verbatim>\<open>Error.prototype.toString\<close>.\<close>

fun error_toString :: "js_error \<Rightarrow> string" where
  "error_toString (JsError n m) =
     (if m = [] then n else if n = [] then m else n @ '': '' @ m)"

text \<open>
  A value of type \<^verbatim>\<open>string | undefined\<close> is a \<open>string option\<close>. \<^verbatim>\<open>String(v)\<close>, which a
  template literal and an assignment to \<^verbatim>\<open>process.env\<close> apply, turns \<^verbatim>\<open>undefined\<close> into
  the text \<^verbatim>\<open>undefined\<close>.
\<close>

fun js_String :: "string option \<Rightarrow> string" where
  "js_String None = ''undefined''"
| "js_String (Some s) = s"

text \<open>\<^verbatim>\<open>v || ""\<close> on a \<^verbatim>\<open>string | undefined\<close>.\<close>

fun or_empty :: "string option \<Rightarrow> string" where
  "or_empty None = []"
| "or_empty (Some s) = s"

text \<open>Truthiness of a \<^verbatim>\<open>string | undefined\<close>: defined and not empty.\<close>

fun truthy :: "string option \<Rightarrow> bool" where
  "truthy None = False"
| "truthy (Some s) = (s \<noteq> [])"

text \<open>
  The result of \<^verbatim>\<open>JSON.parse\<close>. An object keeps its members in the order of the text;
  a later member of the same name replaces an earlier one on lookup. A number carries
  the exact value of its literal; \<^verbatim>\<open>JSON.parse\<close> rounds that value to a double, of which
  the module reads nothing but the truthiness (below).
\<close>

datatype json =
    JNull
  | JBool bool
  | JNum rat
  | JStr string
  | JArr "json list"
  | JObj "(string \<times> json) list"

text \<open>
  Truthiness. A number is falsy when its double is zero: the nearest double of a value
  is zero exactly when the value is at most \<open>1 / 2 ^ 1075\<close> in magnitude, half the
  smallest positive double (a tie goes to the even neighbour, zero). A value too large for a
  double becomes \<^verbatim>\<open>Infinity\<close>, which is truthy.
\<close>

fun json_truthy :: "json \<Rightarrow> bool" where
  "json_truthy JNull = False"
| "json_truthy (JBool b) = b"
| "json_truthy (JNum r) = (1 < 2 ^ 1075 * \<bar>r\<bar>)"
| "json_truthy (JStr s) = (s \<noteq> [])"
| "json_truthy (JArr xs) = True"
| "json_truthy (JObj kvs) = True"

text \<open>
  Property access \<^verbatim>\<open>v.uri\<close> on a value other than \<^verbatim>\<open>null\<close>: \<open>None\<close> is \<^verbatim>\<open>undefined\<close>.
  Only an object parsed from JSON can carry the property; a primitive or an array
  has none of that name on its prototype chain.
\<close>

fun get_uri :: "json \<Rightarrow> json option" where
  "get_uri (JObj kvs) = map_of (rev kvs) ''uri''"
| "get_uri v = None"

text \<open>\<^verbatim>\<open>s.replace(/-/g, "_")\<close>\<close>

definition replace_dashes :: "string \<Rightarrow> string" where
  "replace_dashes s = map (\<lambda>c. if c = CHR ''-'' then CHR ''_'' else c) s"

text \<open>
  \<^verbatim>\<open>s.split("/")\<close>: the pieces between the separators; a string without separator
  (the empty one too) is one piece.
\<close>

fun split_slash :: "string \<Rightarrow> string list" where
  "split_slash [] = [[]]"
| "split_slash (c # cs) =
     (if c = CHR ''/'' then [] # split_slash cs
      else (case split_slash cs of
              p # ps \<Rightarrow> (c # p) # ps
            | [] \<Rightarrow> [[c]]))"

text \<open>Array indexing \<^verbatim>\<open>parts[i]\<close>: \<^verbatim>\<open>undefined\<close> beyond the end.\<close>

definition index :: "'a list \<Rightarrow> nat \<Rightarrow> 'a option" where
  "index xs i = (if i < length xs then Some (xs ! i) else None)"

subsection \<open>The outside of the module\<close>

record DatabaseConfig =
  connectionString :: string
  databaseName :: string

record ObservabilityConfig =
  connectionString :: string
  roleName :: string

record AppConfig =
  observability :: ObservabilityConfig
  database :: DatabaseConfig

text \<open>\<^verbatim>\<open>new DefaultAzureCredential({ managedIdentityClientId: clientId })\<close>\<close>

datatype credential = DefaultAzureCredential "string option"

text \<open>The fields the module reads of the SDK's \<^verbatim>\<open>SecretProperties\<close>, \<^verbatim>\<open>KeyVaultSecret\<close>
  (\<^verbatim>\<open>name\<close>, \<^verbatim>\<open>value\<close>) and \<^verbatim>\<open>ConfigurationSetting\<close> (\<^verbatim>\<open>key\<close>, \<^verbatim>\<open>value\<close>).\<close>

record SecretProperties =
  name :: string

record KeyVaultSecret =
  secret_name :: string
  secret_value :: "string option"

record ConfigurationSetting =
  key :: string
  setting_value :: "string option"

type_synonym environment = "string \<rightharpoonup> string"

text \<open>An enumeration consumed by \<^verbatim>\<open>for await\<close>: the items it yields, then its end or the
  error it throws instead of a further item.\<close>

type_synonym 'a paged = "'a list \<times> js_error option"

text \<open>
  What the module calls and does not define. The remote calls are functions of the
  endpoint and the credential the client was built with; a client whose construction
  fails is a call that fails.
  \<^item> \<open>dotenv_parsed\<close>: the parsed local \<^verbatim>\<open>.env\<close> file, its keys (each once) with their
    values in the order of the file, empty when there is no file;
  \<^item> \<open>config_database\<close>, \<open>config_observability\<close>: \<^verbatim>\<open>config.get\<close> of the two sections, a read
    of the environment through the schema files of the \<^verbatim>\<open>config\<close> library, which are not
    among the sources; the results have the types \<^verbatim>\<open>getConfig\<close> gives them;
  \<^item> \<open>listPropertiesOfSecrets\<close>, \<open>getSecret\<close>: the \<^verbatim>\<open>SecretClient\<close>;
  \<^item> \<open>listConfigurationSettings\<close>: the \<^verbatim>\<open>AppConfigurationClient\<close>;
  \<^item> \<open>JSON_parse\<close>: \<^verbatim>\<open>JSON.parse\<close>, \<open>Inl\<close> the \<^verbatim>\<open>SyntaxError\<close> it throws.
\<close>

record externals =
  dotenv_parsed :: "(string \<times> string) list"
  config_database :: "environment \<Rightarrow> DatabaseConfig"
  config_observability :: "environment \<Rightarrow> ObservabilityConfig"
  listPropertiesOfSecrets :: "string \<Rightarrow> credential \<Rightarrow> SecretProperties paged"
  getSecret :: "string \<Rightarrow> credential \<Rightarrow> string option \<Rightarrow> js_error + KeyVaultSecret"
  listConfigurationSettings :: "string \<Rightarrow> credential \<Rightarrow> ConfigurationSetting paged"
  JSON_parse :: "string \<Rightarrow> js_error + json"

subsection \<open>The state the module changes\<close>

datatype level = Info | Warn | Error

text \<open>A call to the outside, as a spy on the SDK clients and libraries would record it.\<close>

datatype call =
    DotenvConfig
  | ConfigGet string
  | ListPropertiesOfSecrets string credential
  | GetSecret string credential "string option"
  | ListConfigurationSettings string credential

record state =
  env :: environment
  logged :: "(level \<times> string) list"
  calls :: "call list"

definition logger :: "level \<Rightarrow> string \<Rightarrow> state \<Rightarrow> state" where
  "logger l m st = st\<lparr>logged := logged st @ [(l, m)]\<rparr>"

definition called :: "call \<Rightarrow> state \<Rightarrow> state" where
  "called c st = st\<lparr>calls := calls st @ [c]\<rparr>"

text \<open>
  The process environment holds C strings. An assignment to \<^verbatim>\<open>process.env\<close> hands the
  name and the value to \<^verbatim>\<open>setenv\<close>, which reads each up to its first NUL character and
  refuses a name that is empty or contains \<^verbatim>\<open>=\<close>; the refusal is not reported, the
  assignment is then without effect.
\<close>

definition c_string :: "string \<Rightarrow> string" where
  "c_string s = takeWhile (\<lambda>c. c \<noteq> CHR 0x00) s"

definition valid_name :: "string \<Rightarrow> bool" where
  "valid_name n = (n \<noteq> [] \<and> CHR ''='' \<notin> set n)"

definition assign_env :: "string \<Rightarrow> string \<Rightarrow> environment \<Rightarrow> environment" where
  "assign_env k v e =
     (if valid_name (c_string k) then e(c_string k \<mapsto> c_string v) else e)"

text \<open>\<^verbatim>\<open>process.env[k] = v\<close>: the value is converted to a string, then assigned.\<close>

definition set_env :: "string \<Rightarrow> string option \<Rightarrow> state \<Rightarrow> state" where
  "set_env k v st = st\<lparr>env := assign_env k (js_String v) (env st)\<rparr>"

text \<open>
  \<^verbatim>\<open>dotenv.config()\<close>: each key of the file is assigned its value, unless the
  environment has the key already.
\<close>

fun dotenv_populate :: "(string \<times> string) list \<Rightarrow> environment \<Rightarrow> environment" where
  "dotenv_populate [] e = e"
| "dotenv_populate ((k, v) # rest) e =
     dotenv_populate rest (if e (c_string k) \<noteq> None then e else assign_env k v e)"

definition dotenv_config :: "externals \<Rightarrow> state \<Rightarrow> state" where
  "dotenv_config X st =
     called DotenvConfig (st\<lparr>env := dotenv_populate (dotenv_parsed X) (env st)\<rparr>)"

text \<open>
  The end of a \<^verbatim>\<open>for await\<close> loop: when the body has not thrown, the enumeration ends
  or throws. And the handler \<^verbatim>\<open>catch (err) { logger.error(`...${err}`); throw err; }\<close>.
\<close>

fun for_await_end :: "js_error option \<Rightarrow> js_error option \<times> state \<Rightarrow> js_error option \<times> state" where
  "for_await_end failure (Some err, st) = (Some err, st)"
| "for_await_end failure (None, st) = (failure, st)"

fun catch_log_rethrow :: "string \<Rightarrow> js_error option \<times> state \<Rightarrow> js_error option \<times> state" where
  "catch_log_rethrow m (Some err, st) = (Some err, logger Error (m @ error_toString err) st)"
| "catch_log_rethrow m (None, st) = (None, st)"

subsection \<open>The typed configuration (both variants)\<close>

text \<open>\<^verbatim>\<open>getConfig\<close> from the comment \<^verbatim>\<open>Load configuration after population is complete\<close>
  to its \<^verbatim>\<open>return\<close>.\<close>

definition loadConfiguration :: "externals \<Rightarrow> state \<Rightarrow> AppConfig \<times> state" where
  "loadConfiguration X st =
     (let databaseConfig = config_database X (env st);
          st1 = called (ConfigGet ''database'') st;
          observabilityConfig = config_observability X (env st1);
          st2 = called (ConfigGet ''observability'') st1;
          st3 = (if DatabaseConfig.connectionString databaseConfig = []
                 then logger Warn ''database.connectionString is required but has not been set. Ensure environment variable 'AZURE_COSMOS_CONNECTION_STRING' has been set'' st2
                 else st2);
          st4 = (if ObservabilityConfig.connectionString observabilityConfig = []
                 then logger Warn ''observability.connectionString is required but has not been set. Ensure environment variable 'APPLICATIONINSIGHTS_CONNECTION_STRING' has been set'' st3
                 else st3)
      in (\<lparr>observability =
             \<lparr>ObservabilityConfig.connectionString = ObservabilityConfig.connectionString observabilityConfig,
              roleName = roleName observabilityConfig\<rparr>,
           database =
             \<lparr>DatabaseConfig.connectionString = DatabaseConfig.connectionString databaseConfig,
              databaseName = databaseName databaseConfig\<rparr>\<rparr>,
          st4))"

subsection \<open>The combined variant\<close>

text \<open>The body of the loop over \<^verbatim>\<open>secretClient.listPropertiesOfSecrets()\<close>, item by item.\<close>

fun secrets_loop ::
  "externals \<Rightarrow> string \<Rightarrow> credential \<Rightarrow> SecretProperties list \<Rightarrow> state \<Rightarrow> js_error option \<times> state" where
  "secrets_loop X keyVaultEndpoint credential [] st = (None, st)"
| "secrets_loop X keyVaultEndpoint credential (secretProperties # rest) st =
     (let st1 = called (GetSecret keyVaultEndpoint credential (Some (name secretProperties))) st
      in case getSecret X keyVaultEndpoint credential (Some (name secretProperties)) of
           Inl err \<Rightarrow> (Some err, st1)
         | Inr secret \<Rightarrow>
             (let keyName = replace_dashes (secret_name secret)
              in secrets_loop X keyVaultEndpoint credential rest
                   (set_env keyName (secret_value secret) st1)))"

definition populateEnvironmentFromKeyVault :: "externals \<Rightarrow> state \<Rightarrow> js_error option \<times> state" where
  "populateEnvironmentFromKeyVault X st =
     (let clientId = env st ''AZURE_CLIENT_ID'';
          keyVaultEndpoint = or_empty (env st ''AZURE_KEY_VAULT_ENDPOINT'')
      in if keyVaultEndpoint = [] then
           (None, logger Warn ''AZURE_KEY_VAULT_ENDPOINT has not been set. Configuration will be loaded from current environment.'' st)
         else
           catch_log_rethrow ''Error authenticating with Azure KeyVault.  Ensure your managed identity or service principal has GET/LIST permissions. Error: ''
             (let st1 = logger Info ''Populating environment from Azure KeyVault...'' st;
                  credential = DefaultAzureCredential clientId;
                  st2 = called (ListPropertiesOfSecrets keyVaultEndpoint credential) st1
              in case listPropertiesOfSecrets X keyVaultEndpoint credential of
                   (secrets, failure) \<Rightarrow>
                     for_await_end failure
                       (secrets_loop X keyVaultEndpoint credential secrets st2)))"

text \<open>The loop over \<^verbatim>\<open>appConfigClient.listConfigurationSettings()\<close>; its body cannot throw.\<close>

fun settings_loop :: "ConfigurationSetting list \<Rightarrow> state \<Rightarrow> js_error option \<times> state" where
  "settings_loop [] st = (None, st)"
| "settings_loop (setting # rest) st =
     settings_loop rest (set_env (key setting) (setting_value setting) st)"

definition populateEnvironmentFromAppConfig :: "externals \<Rightarrow> state \<Rightarrow> js_error option \<times> state" where
  "populateEnvironmentFromAppConfig X st =
     (let clientId = env st ''AZURE_CLIENT_ID'';
          azureAppConfigEndpoint = or_empty (env st ''AZURE_APPCONFIGURATION_ENDPOINT'')
      in if azureAppConfigEndpoint = [] then
           (None, logger Warn ''AZURE_APPCONFIGURATION_ENDPOINT has not been set. Configuration will be loaded from current environment.'' st)
         else
           catch_log_rethrow ''Error authenticating with Azure App Configuration. Ensure your managed identity or service principal has GET/LIST permissions. Error: ''
             (let st1 = logger Info ''Populating environment from Azure AppConfiguration...'' st;
                  credential = DefaultAzureCredential clientId;
                  st2 = called (ListConfigurationSettings azureAppConfigEndpoint credential) st1
              in case listConfigurationSettings X azureAppConfigEndpoint credential of
                   (settings, failure) \<Rightarrow>
                     for_await_end failure (settings_loop settings st2)))"

definition getConfig :: "externals \<Rightarrow> state \<Rightarrow> (js_error + AppConfig) \<times> state" where
  "getConfig X st =
     (let st1 = (if env st ''NODE_ENV'' \<noteq> Some ''production'' then dotenv_config X st else st)
      in case populateEnvironmentFromKeyVault X st1 of
           (Some err, st2) \<Rightarrow> (Inl err, st2)
         | (None, st2) \<Rightarrow>
             (case populateEnvironmentFromAppConfig X st2 of
                (Some err, st3) \<Rightarrow> (Inl err, st3)
              | (None, st3) \<Rightarrow>
                  (case loadConfiguration X st3 of (config, st4) \<Rightarrow> (Inr config, st4))))"

subsection \<open>The reference-resolving variant\<close>

text \<open>\<^verbatim>\<open>typeof v === "string"\<close> of a property read.\<close>

fun typeof_string :: "json option \<Rightarrow> bool" where
  "typeof_string (Some (JStr s)) = True"
| "typeof_string v = False"

text \<open>
  The truthiness of what \<^verbatim>\<open>isKeyVaultReference\<close> returns, which is all its caller reads:
  \<^verbatim>\<open>valueObject && typeof valueObject.uri === "string"\<close> is the falsy \<^verbatim>\<open>valueObject\<close> itself
  or the comparison.
\<close>

definition isKeyVaultReference :: "externals \<Rightarrow> ConfigurationSetting \<Rightarrow> bool" where
  "isKeyVaultReference X setting =
     (case setting_value setting of
        None \<Rightarrow> False
      | Some v \<Rightarrow>
          if v = [] then False
          else (case JSON_parse X v of
                  Inl err \<Rightarrow> False
                | Inr valueObject \<Rightarrow> json_truthy valueObject \<and> typeof_string (get_uri valueObject)))"

definition not_a_reference :: "ConfigurationSetting \<Rightarrow> js_error" where
  "not_a_reference setting =
     JsError ''Error'' (''AppConfiguration setting '' @ key setting @ '' does not contain a valid Key Vault reference'')"

definition getSecretFromKeyVault ::
  "externals \<Rightarrow> ConfigurationSetting \<Rightarrow> credential \<Rightarrow> state \<Rightarrow> (js_error + string option) \<times> state" where
  "getSecretFromKeyVault X setting credential st =
     (case setting_value setting of
        None \<Rightarrow> (Inl (JsError ''Error'' (''AppConfiguration setting '' @ key setting @ '' does not have a value'')), st)
      | Some v \<Rightarrow>
          if v = [] then
            (Inl (JsError ''Error'' (''AppConfiguration setting '' @ key setting @ '' does not have a value'')), st)
          else
            (case JSON_parse X v of
               Inl err \<Rightarrow> (Inl err, st)
             | Inr JNull \<Rightarrow>
                 (Inl (JsError ''TypeError'' ''Cannot read properties of null (reading 'uri')''), st)
             | Inr secretUriObject \<Rightarrow>
                 (case get_uri secretUriObject of
                    None \<Rightarrow> (Inl (not_a_reference setting), st)
                  | Some secretUri \<Rightarrow>
                      if \<not> json_truthy secretUri then (Inl (not_a_reference setting), st)
                      else
                        (case secretUri of
                           JStr uri \<Rightarrow>
                             (let secretUriParts = split_slash uri;
                                  keyVaultName = index secretUriParts 2;
                                  secretName = index secretUriParts 4;
                                  endpointUrl = ''https://'' @ js_String keyVaultName;
                                  st1 = called (GetSecret endpointUrl credential secretName) st
                              in case getSecret X endpointUrl credential secretName of
                                   Inl err \<Rightarrow> (Inl err, st1)
                                 | Inr secret \<Rightarrow> (Inr (secret_value secret), st1))
                         | _ \<Rightarrow>
                             (Inl (JsError ''TypeError'' ''secretUri.split is not a function''), st)))))"

fun settings_loop_kvref ::
  "externals \<Rightarrow> credential \<Rightarrow> ConfigurationSetting list \<Rightarrow> state \<Rightarrow> js_error option \<times> state" where
  "settings_loop_kvref X credential [] st = (None, st)"
| "settings_loop_kvref X credential (setting # rest) st =
     (if truthy (setting_value setting) \<and> isKeyVaultReference X setting then
        (case getSecretFromKeyVault X setting credential st of
           (Inl err, st1) \<Rightarrow> (Some err, st1)
         | (Inr secretValue, st1) \<Rightarrow>
             settings_loop_kvref X credential rest (set_env (key setting) secretValue st1))
      else if truthy (setting_value setting) then
        settings_loop_kvref X credential rest (set_env (key setting) (setting_value setting) st)
      else settings_loop_kvref X credential rest st)"

definition populateEnvironmentFromAppConfig_kvref :: "externals \<Rightarrow> state \<Rightarrow> js_error option \<times> state" where
  "populateEnvironmentFromAppConfig_kvref X st =
     (let clientId = env st ''AZURE_CLIENT_ID'';
          azureAppConfigEndpoint = or_empty (env st ''AZURE_APPCONFIGURATION_ENDPOINT'')
      in if azureAppConfigEndpoint = [] then
           (None, logger Warn ''AZURE_APPCONFIGURATION_ENDPOINT has not been set. Configuration will be loaded from current environment.'' st)
         else
           catch_log_rethrow ''Error authenticating with Azure App Configuration or Keyvault. Ensure your managed identity or service principal has GET/LIST permissions. Error: ''
             (let st1 = logger Info ''Populating environment from Azure AppConfiguration...'' st;
                  credential = DefaultAzureCredential clientId;
                  st2 = called (ListConfigurationSettings azureAppConfigEndpoint credential) st1
              in case listConfigurationSettings X azureAppConfigEndpoint credential of
                   (settings, failure) \<Rightarrow>
                     for_await_end failure (settings_loop_kvref X credential settings st2)))"

definition getConfig_kvref :: "externals \<Rightarrow> state \<Rightarrow> (js_error + AppConfig) \<times> state" where
  "getConfig_kvref X st =
     (let st0 = logger Info (''Loading configuration from '' @ js_String (env st ''NODE_ENV'') @ '' environment...'') st
      in case (if env st0 ''NODE_ENV'' = Some ''production''
               then populateEnvironmentFromAppConfig_kvref X st0
               else (None, dotenv_config X st0)) of
           (Some err, st1) \<Rightarrow> (Inl err, st1)
         | (None, st1) \<Rightarrow>
             (case loadConfiguration X st1 of (config, st2) \<Rightarrow> (Inr config, st2)))"

subsection \<open>A JSON parser for concrete runs\<close>

text \<open>
  An executable \<^verbatim>\<open>JSON.parse\<close> to run the module on concrete settings: a lexer and a
  parser with an explicit stack, both by recursion on their input. A string is a
  list of bytes: an escape \<^verbatim>\<open>\uXXXX\<close> is stored in UTF-8, one code unit at a time. A number
  is the exact rational value of its literal. The properties below hold
  for every \<open>JSON_parse\<close>; this one is used where a concrete run is evaluated.
\<close>

datatype token =
    TLBrace | TRBrace | TLBrack | TRBrack | TColon | TComma
  | TString string | TNumber string | TWord string

definition is_digit :: "char \<Rightarrow> bool" where
  "is_digit c = (c \<in> set ''0123456789'')"

definition is_letter :: "char \<Rightarrow> bool" where
  "is_letter c = (c \<in> set ''abcdefghijklmnopqrstuvwxyzABCDEFGHIJKLMNOPQRSTUVWXYZ'')"

definition is_ws :: "char \<Rightarrow> bool" where
  "is_ws c = (c \<in> {CHR '' '', CHR 0x09, CHR 0x0A, CHR 0x0D})"

definition hex_digit :: "char \<Rightarrow> nat option" where
  "hex_digit c =
     (if is_digit c then Some (of_char c - 48)
      else if c \<in> set ''abcdef'' then Some (of_char c - 87)
      else if c \<in> set ''ABCDEF'' then Some (of_char c - 55)
      else None)"

definition utf8 :: "nat \<Rightarrow> string" where
  "utf8 n =
     (if n < 128 then [char_of n]
      else if n < 2048 then [char_of (192 + n div 64), char_of (128 + n mod 64)]
      else [char_of (224 + n div 4096), char_of (128 + (n div 64) mod 64), char_of (128 + n mod 64)])"

datatype lex_mode =
    LStart
  | LWord string
  | LNumber string
  | LString string
  | LEscape string
  | LHex string "nat list"

definition punctuation :: "char \<Rightarrow> token option" where
  "punctuation c =
     (if c = CHR ''{'' then Some TLBrace else if c = CHR ''}'' then Some TRBrace
      else if c = CHR ''['' then Some TLBrack else if c = CHR '']'' then Some TRBrack
      else if c = CHR '':'' then Some TColon else if c = CHR '','' then Some TComma
      else None)"

definition escaped :: "char \<Rightarrow> char option" where
  "escaped c =
     (if c = CHR 0x22 \<or> c = CHR 0x5C \<or> c = CHR ''/'' then Some c
      else if c = CHR ''b'' then Some (CHR 0x08)
      else if c = CHR ''f'' then Some (CHR 0x0C)
      else if c = CHR ''n'' then Some (CHR 0x0A)
      else if c = CHR ''r'' then Some (CHR 0x0D)
      else if c = CHR ''t'' then Some (CHR 0x09)
      else None)"

fun lex_emit :: "token option \<Rightarrow> token list option \<Rightarrow> token list option" where
  "lex_emit t None = None"
| "lex_emit None (Some ts) = Some ts"
| "lex_emit (Some t) (Some ts) = Some (t # ts)"

definition lex_start :: "char \<Rightarrow> (token option \<times> lex_mode) option" where
  "lex_start c =
     (if is_ws c then Some (None, LStart)
      else if c = CHR 0x22 then Some (None, LString [])
      else if c = CHR ''-'' \<or> is_digit c then Some (None, LNumber [c])
      else if is_letter c then Some (None, LWord [c])
      else (case punctuation c of Some t \<Rightarrow> Some (Some t, LStart) | None \<Rightarrow> None))"

fun json_lex :: "lex_mode \<Rightarrow> string \<Rightarrow> token list option" where
  "json_lex LStart [] = Some []"
| "json_lex (LWord w) [] = Some [TWord w]"
| "json_lex (LNumber n) [] = Some [TNumber n]"
| "json_lex (LString s) [] = None"
| "json_lex (LEscape s) [] = None"
| "json_lex (LHex s ds) [] = None"
| "json_lex LStart (c # cs) =
     (case lex_start c of None \<Rightarrow> None | Some (t, m) \<Rightarrow> lex_emit t (json_lex m cs))"
| "json_lex (LWord w) (c # cs) =
     (if is_letter c then json_lex (LWord (w @ [c])) cs
      else (case lex_start c of
              None \<Rightarrow> None
            | Some (t, m) \<Rightarrow> lex_emit (Some (TWord w)) (lex_emit t (json_lex m cs))))"
| "json_lex (LNumber n) (c # cs) =
     (if is_digit c \<or> c \<in> set ''+-.eE'' then json_lex (LNumber (n @ [c])) cs
      else (case lex_start c of
              None \<Rightarrow> None
            | Some (t, m) \<Rightarrow> lex_emit (Some (TNumber n)) (lex_emit t (json_lex m cs))))"
| "json_lex (LString s) (c # cs) =
     (if c = CHR 0x22 then lex_emit (Some (TString s)) (json_lex LStart cs)
      else if c = CHR 0x5C then json_lex (LEscape s) cs
      else if (of_char c :: nat) < 32 then None
      else json_lex (LString (s @ [c])) cs)"
| "json_lex (LEscape s) (c # cs) =
     (if c = CHR ''u'' then json_lex (LHex s []) cs
      else (case escaped c of Some e \<Rightarrow> json_lex (LString (s @ [e])) cs | None \<Rightarrow> None))"
| "json_lex (LHex s ds) (c # cs) =
     (case hex_digit c of
        None \<Rightarrow> None
      | Some d \<Rightarrow>
          if length ds < 3 then json_lex (LHex s (ds @ [d])) cs
          else json_lex (LString (s @ utf8 (foldl (\<lambda>a x. 16 * a + x) 0 (ds @ [d])))) cs)"

text \<open>The value of a number token, \<open>None\<close> when the token is not a JSON number.\<close>

definition digits_value :: "string \<Rightarrow> nat" where
  "digits_value ds = foldl (\<lambda>a c. 10 * a + (of_char c - 48)) 0 ds"

text \<open>The exponent part: empty, or e/E, an optional sign and digits.\<close>

definition exponent :: "string \<Rightarrow> int option" where
  "exponent s =
     (case s of
        [] \<Rightarrow> Some 0
      | c # r \<Rightarrow>
          if c = CHR ''e'' \<or> c = CHR ''E'' then
            (let neg = (r \<noteq> [] \<and> hd r = CHR ''-'');
                 ds = (if r \<noteq> [] \<and> (hd r = CHR ''-'' \<or> hd r = CHR ''+'') then tl r else r)
             in if ds \<noteq> [] \<and> list_all is_digit ds
                then Some (if neg then - int (digits_value ds) else int (digits_value ds))
                else None)
          else None)"

definition number_value :: "string \<Rightarrow> rat option" where
  "number_value s =
     (let neg = (s \<noteq> [] \<and> hd s = CHR ''-'');
          s1 = (if neg then tl s else s);
          ip = takeWhile is_digit s1;
          r1 = dropWhile is_digit s1;
          has_frac = (r1 \<noteq> [] \<and> hd r1 = CHR ''.'');
          fp = (if has_frac then takeWhile is_digit (tl r1) else []);
          r2 = (if has_frac then dropWhile is_digit (tl r1) else r1)
      in if ip = [] \<or> (hd ip = CHR ''0'' \<and> length ip > 1) \<or> (has_frac \<and> fp = []) then None
         else (case exponent r2 of
                 None \<Rightarrow> None
               | Some e \<Rightarrow>
                   (let m = of_nat (digits_value (ip @ fp)) / 10 ^ length fp;
                        v = (if e < 0 then m / 10 ^ nat (- e) else m * 10 ^ nat e)
                    in Some (if neg then - v else v))))"

datatype frame = ArrFrame "json list" | ObjFrame "(string \<times> json) list" "string option"

datatype expect =
    EValue
  | EValueOrEnd
  | EKeyOrEnd
  | EKey
  | EColon
  | ENext
  | EDone json

fun deliver :: "json \<Rightarrow> frame list \<Rightarrow> (expect \<times> frame list) option" where
  "deliver v [] = Some (EDone v, [])"
| "deliver v (ArrFrame xs # fs) = Some (ENext, ArrFrame (xs @ [v]) # fs)"
| "deliver v (ObjFrame kvs (Some k) # fs) = Some (ENext, ObjFrame (kvs @ [(k, v)]) None # fs)"
| "deliver v (ObjFrame kvs None # fs) = None"

fun scalar_value :: "token \<Rightarrow> json option" where
  "scalar_value (TString s) = Some (JStr s)"
| "scalar_value (TNumber n) = map_option JNum (number_value n)"
| "scalar_value (TWord w) =
     (if w = ''true'' then Some (JBool True) else if w = ''false'' then Some (JBool False)
      else if w = ''null'' then Some JNull else None)"
| "scalar_value t = None"

fun begin_value :: "token \<Rightarrow> frame list \<Rightarrow> (expect \<times> frame list) option" where
  "begin_value TLBrack fs = Some (EValueOrEnd, ArrFrame [] # fs)"
| "begin_value TLBrace fs = Some (EKeyOrEnd, ObjFrame [] None # fs)"
| "begin_value t fs = (case scalar_value t of None \<Rightarrow> None | Some v \<Rightarrow> deliver v fs)"

fun end_array :: "frame list \<Rightarrow> (expect \<times> frame list) option" where
  "end_array (ArrFrame xs # fs) = deliver (JArr xs) fs"
| "end_array fs = None"

fun end_object :: "frame list \<Rightarrow> (expect \<times> frame list) option" where
  "end_object (ObjFrame kvs None # fs) = deliver (JObj kvs) fs"
| "end_object fs = None"

fun begin_member :: "token \<Rightarrow> frame list \<Rightarrow> (expect \<times> frame list) option" where
  "begin_member (TString k) (ObjFrame kvs None # fs) = Some (EColon, ObjFrame kvs (Some k) # fs)"
| "begin_member t fs = None"

fun parse_step :: "expect \<Rightarrow> frame list \<Rightarrow> token \<Rightarrow> (expect \<times> frame list) option" where
  "parse_step EValue fs t = begin_value t fs"
| "parse_step EValueOrEnd fs t = (if t = TRBrack then end_array fs else begin_value t fs)"
| "parse_step EKeyOrEnd fs t = (if t = TRBrace then end_object fs else begin_member t fs)"
| "parse_step EKey fs t = begin_member t fs"
| "parse_step EColon fs t = (if t = TColon then Some (EValue, fs) else None)"
| "parse_step ENext fs t =
     (if t = TRBrack then end_array fs
      else if t = TRBrace then end_object fs
      else if t = TComma then
        (case fs of
           ArrFrame xs # r \<Rightarrow> Some (EValue, fs)
         | ObjFrame kvs k # r \<Rightarrow> Some (EKey, fs)
         | [] \<Rightarrow> None)
      else None)"
| "parse_step (EDone v) fs t = None"

fun parse_tokens :: "expect \<Rightarrow> frame list \<Rightarrow> token list \<Rightarrow> json option" where
  "parse_tokens (EDone v) fs [] = Some v"
| "parse_tokens e fs [] = None"
| "parse_tokens e fs (t # ts) = (case parse_step e fs t of None \<Rightarrow> None | Some (e', fs') \<Rightarrow> parse_tokens e' fs' ts)"

definition json_parse :: "string \<Rightarrow> js_error + json" where
  "json_parse s =
     (case json_lex LStart s of
        None \<Rightarrow> Inl (JsError ''SyntaxError'' ''Unexpected token or end of JSON input'')
      | Some ts \<Rightarrow>
          (case parse_tokens EValue [] ts of
             None \<Rightarrow> Inl (JsError ''SyntaxError'' ''Unexpected token or end of JSON input'')
           | Some v \<Rightarrow> Inr v))"

subsection \<open>A sample deployment\<close>

text \<open>
  Concrete externals on which the properties are run: a vault \<^verbatim>\<open>todo-kv\<close> with three
  secrets, a vault \<^verbatim>\<open>locked-kv\<close> that lists two secrets and refuses the second, a vault
  \<^verbatim>\<open>myvault\<close> holding \<^verbatim>\<open>mysecret\<close>, and three configuration stores: \<^verbatim>\<open>todo-ac\<close>,
  \<^verbatim>\<open>broken-ac\<close> whose second setting is a reference with an empty \<^verbatim>\<open>uri\<close>, and
  \<^verbatim>\<open>flaky-ac\<close> whose enumeration fails after its first setting. The vault \<^verbatim>\<open>odd-kv\<close>
  and the store \<^verbatim>\<open>odd-ac\<close> hold a value with a NUL character and a name with \<^verbatim>\<open>=\<close>; the
  store \<^verbatim>\<open>skipping-ac\<close> yields a setting of empty value, a setting whose key has a \<^verbatim>\<open>=\<close>,
  a literal, and then fails.
  Every other call is refused.
\<close>

definition denied :: js_error where
  "denied = JsError ''RestError'' ''Caller is not authorized to perform action on resource''"

definition sample_secrets :: "string \<Rightarrow> SecretProperties paged" where
  "sample_secrets endpoint =
     (if endpoint = ''https://todo-kv.vault.azure.net'' then
        ([\<lparr>name = ''My-Secret-Name''\<rparr>, \<lparr>name = ''A-B''\<rparr>, \<lparr>name = ''A_B''\<rparr>], None)
      else if endpoint = ''https://locked-kv.vault.azure.net'' then
        ([\<lparr>name = ''A-B''\<rparr>, \<lparr>name = ''C-D''\<rparr>], None)
      else if endpoint = ''https://odd-kv.vault.azure.net'' then
        ([\<lparr>name = ''Bin-Key''\<rparr>, \<lparr>name = ''A=B''\<rparr>], None)
      else ([], Some denied))"

definition sample_secret :: "string \<Rightarrow> string option \<Rightarrow> js_error + KeyVaultSecret" where
  "sample_secret endpoint n =
     (if endpoint = ''https://todo-kv.vault.azure.net'' \<and> n = Some ''My-Secret-Name'' then
        Inr \<lparr>secret_name = ''My-Secret-Name'', secret_value = Some ''hunter2''\<rparr>
      else if endpoint = ''https://todo-kv.vault.azure.net'' \<and> n = Some ''A-B'' then
        Inr \<lparr>secret_name = ''A-B'', secret_value = Some ''first''\<rparr>
      else if endpoint = ''https://todo-kv.vault.azure.net'' \<and> n = Some ''A_B'' then
        Inr \<lparr>secret_name = ''A_B'', secret_value = Some ''second''\<rparr>
      else if endpoint = ''https://locked-kv.vault.azure.net'' \<and> n = Some ''A-B'' then
        Inr \<lparr>secret_name = ''A-B'', secret_value = Some ''first''\<rparr>
      else if endpoint = ''https://odd-kv.vault.azure.net'' \<and> n = Some ''Bin-Key'' then
        Inr \<lparr>secret_name = ''Bin-Key'', secret_value = Some (''s'' @ [CHR 0x00] @ ''t'')\<rparr>
      else if endpoint = ''https://odd-kv.vault.azure.net'' \<and> n = Some ''A=B'' then
        Inr \<lparr>secret_name = ''A=B'', secret_value = Some ''x''\<rparr>
      else if endpoint = ''https://myvault.vault.azure.net'' \<and> n = Some ''mysecret'' then
        Inr \<lparr>secret_name = ''mysecret'', secret_value = Some ''mongodb://prod''\<rparr>
      else Inl denied)"

definition sample_settings :: "string \<Rightarrow> ConfigurationSetting paged" where
  \<open>sample_settings endpoint =
     (if endpoint = ''https://todo-ac.azconfig.io'' then
        ([\<lparr>key = ''AZURE_COSMOS_CONNECTION_STRING'',
           setting_value = Some ''{"uri":"https://myvault.vault.azure.net/secrets/mysecret"}''\<rparr>,
          \<lparr>key = ''APPLICATIONINSIGHTS_CONNECTION_STRING'', setting_value = Some ''InstrumentationKey=abc''\<rparr>,
          \<lparr>key = ''API_ALLOW_ORIGINS'', setting_value = Some []\<rparr>,
          \<lparr>key = ''A_B'', setting_value = Some ''from-config''\<rparr>], None)
      else if endpoint = ''https://broken-ac.azconfig.io'' then
        ([\<lparr>key = ''K1'', setting_value = Some ''v1''\<rparr>,
          \<lparr>key = ''K2'', setting_value = Some ''{"uri":""}''\<rparr>,
          \<lparr>key = ''K3'', setting_value = Some ''v3''\<rparr>], None)
      else if endpoint = ''https://flaky-ac.azconfig.io'' then
        ([\<lparr>key = ''K1'', setting_value = Some ''v1''\<rparr>], Some denied)
      else if endpoint = ''https://odd-ac.azconfig.io'' then
        ([\<lparr>key = ''A=B'', setting_value = Some ''x''\<rparr>,
          \<lparr>key = ''Bin_Key'', setting_value = Some (''c'' @ [CHR 0x00] @ ''d'')\<rparr>], None)
      else if endpoint = ''https://skipping-ac.azconfig.io'' then
        ([\<lparr>key = ''K0'', setting_value = Some []\<rparr>,
          \<lparr>key = ''A=B'', setting_value = Some ''x''\<rparr>,
          \<lparr>key = ''K1'', setting_value = Some ''v1''\<rparr>], Some denied)
      else ([], Some denied))\<close>

definition sample :: externals where
  "sample =
     \<lparr>dotenv_parsed = [(''AZURE_COSMOS_CONNECTION_STRING'', ''mongodb://localhost:27017'')],
      config_database = (\<lambda>e.
        \<lparr>DatabaseConfig.connectionString = or_empty (e ''AZURE_COSMOS_CONNECTION_STRING''),
         databaseName = ''Todo''\<rparr>),
      config_observability = (\<lambda>e.
        \<lparr>ObservabilityConfig.connectionString = or_empty (e ''APPLICATIONINSIGHTS_CONNECTION_STRING''),
         roleName = ''API''\<rparr>),
      listPropertiesOfSecrets = (\<lambda>endpoint c. sample_secrets endpoint),
      getSecret = (\<lambda>endpoint c n. sample_secret endpoint n),
      listConfigurationSettings = (\<lambda>endpoint c. sample_settings endpoint),
      JSON_parse = json_parse\<rparr>"

text \<open>A process started with the given environment, nothing logged or called yet.\<close>

definition started :: "(string \<times> string) list \<Rightarrow> state" where
  "started vars = \<lparr>env = map_of vars, logged = [], calls = []\<rparr>"

subsection \<open>Notions used to state the properties\<close>

text \<open>
  The environment after the assignments \<^verbatim>\<open>process.env[kf x] = vf x\<close> for the items of a
  list, in order.
\<close>

definition write_all :: "('a \<Rightarrow> string) \<Rightarrow> ('a \<Rightarrow> string option) \<Rightarrow> 'a list \<Rightarrow> environment \<Rightarrow> environment" where
  "write_all kf vf xs e = fold (\<lambda>x m. assign_env (kf x) (js_String (vf x)) m) xs e"

text \<open>
  The assignment the loop of the reference-resolving variant makes for one setting:
  the resolved secret for a reference, the value for a literal, none for a setting
  without value or a reference whose resolution raises. What the resolution returns
  does not depend on the state it is run in.
\<close>

definition resolved_value :: "externals \<Rightarrow> credential \<Rightarrow> ConfigurationSetting \<Rightarrow> js_error + string option" where
  "resolved_value X c s =
     fst (getSecretFromKeyVault X s c \<lparr>env = Map.empty, logged = [], calls = []\<rparr>)"

definition assignment :: "externals \<Rightarrow> credential \<Rightarrow> ConfigurationSetting \<Rightarrow> (string \<times> string option) list" where
  "assignment X c s =
     (if truthy (setting_value s) \<and> isKeyVaultReference X s then
        (case resolved_value X c s of Inl err \<Rightarrow> [] | Inr v \<Rightarrow> [(key s, v)])
      else if truthy (setting_value s) then [(key s, setting_value s)]
      else [])"

definition assignments :: "externals \<Rightarrow> credential \<Rightarrow> ConfigurationSetting list \<Rightarrow> (string \<times> string option) list" where
  "assignments X c ss = concat (map (assignment X c) ss)"

text \<open>Where a call goes: the local file, the secret store, the configuration store or
  the schema accessor.\<close>

datatype source = Local | SecretStore | ConfigStore | Schema

fun source_of :: "call \<Rightarrow> source" where
  "source_of DotenvConfig = Local"
| "source_of (ConfigGet section) = Schema"
| "source_of (ListPropertiesOfSecrets endpoint c) = SecretStore"
| "source_of (GetSecret endpoint c n) = SecretStore"
| "source_of (ListConfigurationSettings endpoint c) = ConfigStore"

section \<open>Properties\<close>

subsection \<open>Assignments to the environment\<close>

lemma assign_env_apply:
  "assign_env k v e n =
     (if valid_name (c_string k) \<and> c_string k = n then Some (c_string v) else e n)"
  by (auto simp: assign_env_def)

lemma write_all_Nil [simp]: "write_all kf vf [] e = e"
  by (simp add: write_all_def)

lemma write_all_Cons [simp]:
  "write_all kf vf (x # xs) e = write_all kf vf xs (assign_env (kf x) (js_String (vf x)) e)"
  by (simp add: write_all_def)

lemma write_all_snoc:
  "write_all kf vf (xs @ [x]) e = assign_env (kf x) (js_String (vf x)) (write_all kf vf xs e)"
  by (simp add: write_all_def)

text \<open>A valid name holds what the last assignment to it stored.\<close>

lemma write_all_lookup:
  "valid_name n \<Longrightarrow> [y \<leftarrow> xs. c_string (kf y) = n] \<noteq> [] \<Longrightarrow>
   write_all kf vf xs e n = Some (c_string (js_String (vf (last [y \<leftarrow> xs. c_string (kf y) = n]))))"
proof (induction xs rule: rev_induct)
  case Nil
  then show ?case by simp
next
  case (snoc y ys)
  show ?case
  proof (cases "c_string (kf y) = n")
    case True
    with snoc.prems(1) show ?thesis by (simp add: write_all_snoc assign_env_apply)
  next
    case False
    with snoc.prems have "[y \<leftarrow> ys. c_string (kf y) = n] \<noteq> []" by simp
    with snoc.IH snoc.prems(1) False show ?thesis by (simp add: write_all_snoc assign_env_apply)
  qed
qed

text \<open>Any other name, and every name that is not valid, is left as it was.\<close>

lemma write_all_other:
  "\<not> valid_name n \<or> [y \<leftarrow> xs. c_string (kf y) = n] = [] \<Longrightarrow> write_all kf vf xs e n = e n"
proof (induction xs rule: rev_induct)
  case Nil
  then show ?case by simp
next
  case (snoc y ys)
  then have "\<not> valid_name n \<or> [y \<leftarrow> ys. c_string (kf y) = n] = []"
    by (auto split: if_splits)
  with snoc.IH have "write_all kf vf ys e n = e n" by simp
  with snoc.prems show ?case by (auto simp: write_all_snoc assign_env_apply split: if_splits)
qed

subsection \<open>The state after each operation\<close>

lemma called_simps [simp]:
  "env (called c st) = env st"
  "logged (called c st) = logged st"
  "calls (called c st) = calls st @ [c]"
  by (simp_all add: called_def)

lemma logger_simps [simp]:
  "env (logger l m st) = env st"
  "logged (logger l m st) = logged st @ [(l, m)]"
  "calls (logger l m st) = calls st"
  by (simp_all add: logger_def)

lemma set_env_simps [simp]:
  "env (set_env k v st) = assign_env k (js_String v) (env st)"
  "logged (set_env k v st) = logged st"
  "calls (set_env k v st) = calls st"
  by (simp_all add: set_env_def)

lemma dotenv_config_simps [simp]:
  "env (dotenv_config X st) = dotenv_populate (dotenv_parsed X) (env st)"
  "logged (dotenv_config X st) = logged st"
  "calls (dotenv_config X st) = calls st @ [DotenvConfig]"
  by (simp_all add: dotenv_config_def)

subsection \<open>The loop over the secrets\<close>

lemma secrets_loop_ok:
  "map (\<lambda>p. getSecret X ep c (Some (name p))) ps = map Inr secrets \<Longrightarrow>
   fst (secrets_loop X ep c ps st) = None \<and>
   env (snd (secrets_loop X ep c ps st)) =
     write_all (\<lambda>s. replace_dashes (secret_name s)) secret_value secrets (env st) \<and>
   logged (snd (secrets_loop X ep c ps st)) = logged st \<and>
   calls (snd (secrets_loop X ep c ps st)) =
     calls st @ map (\<lambda>p. GetSecret ep c (Some (name p))) ps"
proof (induction ps arbitrary: st secrets)
  case Nil
  then show ?case by simp
next
  case (Cons p ps)
  then obtain s ss where sec: "secrets = s # ss" by (cases secrets) auto
  with Cons.prems have h: "getSecret X ep c (Some (name p)) = Inr s"
    and t: "map (\<lambda>p. getSecret X ep c (Some (name p))) ps = map Inr ss" by auto
  show ?case
    using Cons.IH [OF t, of "set_env (replace_dashes (secret_name s)) (secret_value s)
        (called (GetSecret ep c (Some (name p))) st)"] h sec
    by (simp add: Let_def)
qed

lemma secrets_loop_fails:
  "map (\<lambda>p. getSecret X ep c (Some (name p))) pre = map Inr secrets \<Longrightarrow>
   getSecret X ep c (Some (name p)) = Inl err \<Longrightarrow>
   fst (secrets_loop X ep c (pre @ p # post) st) = Some err \<and>
   env (snd (secrets_loop X ep c (pre @ p # post) st)) =
     write_all (\<lambda>s. replace_dashes (secret_name s)) secret_value secrets (env st) \<and>
   logged (snd (secrets_loop X ep c (pre @ p # post) st)) = logged st \<and>
   calls (snd (secrets_loop X ep c (pre @ p # post) st)) =
     calls st @ map (\<lambda>p. GetSecret ep c (Some (name p))) (pre @ [p])"
proof (induction pre arbitrary: st secrets)
  case Nil
  then show ?case by (simp add: Let_def)
next
  case (Cons q qs)
  then obtain s ss where sec: "secrets = s # ss" by (cases secrets) auto
  with Cons.prems have h: "getSecret X ep c (Some (name q)) = Inr s"
    and t: "map (\<lambda>p. getSecret X ep c (Some (name p))) qs = map Inr ss" by auto
  show ?case
    using Cons.IH [OF t Cons.prems(2), of "set_env (replace_dashes (secret_name s)) (secret_value s)
        (called (GetSecret ep c (Some (name q))) st)"] h sec
    by (simp add: Let_def)
qed

text \<open>Every run of the loop is one of the two: all retrievals succeed, or a first one fails.\<close>

lemma retrievals_cases:
  "(\<exists>secrets. map f ps = map Inr secrets) \<or>
   (\<exists>pre p post secrets err. ps = pre @ p # post \<and> map f pre = map Inr secrets \<and> f p = Inl err)"
proof (induction ps)
  case Nil
  then show ?case by simp
next
  case (Cons q qs)
  show ?case
  proof (cases "f q")
    case (Inl err)
    then have "q # qs = [] @ q # qs \<and> map f [] = map Inr [] \<and> f q = Inl err" by simp
    then show ?thesis by blast
  next
    case (Inr s)
    from Cons.IH show ?thesis
    proof
      assume "\<exists>secrets. map f qs = map Inr secrets"
      then obtain ss where "map f qs = map Inr ss" by blast
      with Inr have "map f (q # qs) = map Inr (s # ss)" by simp
      then show ?thesis by blast
    next
      assume "\<exists>pre p post secrets err. qs = pre @ p # post \<and> map f pre = map Inr secrets \<and> f p = Inl err"
      then obtain pre p post ss err where
        "qs = pre @ p # post" "map f pre = map Inr ss" "f p = Inl err" by blast
      with Inr have "q # qs = (q # pre) @ p # post \<and> map f (q # pre) = map Inr (s # ss) \<and> f p = Inl err"
        by simp
      then show ?thesis by blast
    qed
  qed
qed






subsection \<open>The typed configuration\<close>

lemma database_warning_names_variable:
  "sublist ''AZURE_COSMOS_CONNECTION_STRING''
     ''database.connectionString is required but has not been set. Ensure environment variable 'AZURE_COSMOS_CONNECTION_STRING' has been set''"
proof -
  have "''database.connectionString is required but has not been set. Ensure environment variable 'AZURE_COSMOS_CONNECTION_STRING' has been set'' =
        (''database.connectionString is required but has not been set. Ensure environment variable '' @ [CHR 0x27]) @
        ''AZURE_COSMOS_CONNECTION_STRING'' @ (CHR 0x27 # '' has been set'')"
    by simp
  then show ?thesis unfolding sublist_def by blast
qed

lemma loadConfiguration_result:
  "fst (loadConfiguration X st) =
     \<lparr>observability = config_observability X (env st), database = config_database X (env st)\<rparr>"
  by (simp add: loadConfiguration_def Let_def)

lemma loadConfiguration_env: "env (snd (loadConfiguration X st)) = env st"
  by (simp add: loadConfiguration_def Let_def)

lemma loadConfiguration_calls:
  "calls (snd (loadConfiguration X st)) = calls st @ [ConfigGet ''database'', ConfigGet ''observability'']"
  by (simp add: loadConfiguration_def Let_def)

lemma loadConfiguration_warns:
  "DatabaseConfig.connectionString (config_database X (env st)) = [] \<Longrightarrow>
   (Warn, ''database.connectionString is required but has not been set. Ensure environment variable 'AZURE_COSMOS_CONNECTION_STRING' has been set'')
     \<in> set (logged (snd (loadConfiguration X st)))"
  by (simp add: loadConfiguration_def Let_def)

text \<open>
  C9. Whatever the environment holds, \<open>loadConfiguration\<close> returns the structure with both
  sections as the schema accessor reads them, and leaves the environment as it is. When
  the database connection string is empty it is returned empty, and a warning that names
  \<^verbatim>\<open>AZURE_COSMOS_CONNECTION_STRING\<close> is logged. Nothing in it raises: once both populations
  of \<open>getConfig\<close> have returned, \<open>getConfig\<close> returns that structure.
\<close>

theorem extraction_always_returns:
  "fst (loadConfiguration X st) =
     \<lparr>observability = config_observability X (env st), database = config_database X (env st)\<rparr> \<and>
   env (snd (loadConfiguration X st)) = env st \<and>
   (DatabaseConfig.connectionString (config_database X (env st)) = [] \<longrightarrow>
      DatabaseConfig.connectionString (database (fst (loadConfiguration X st))) = [] \<and>
      (\<exists>m. (Warn, m) \<in> set (logged (snd (loadConfiguration X st))) \<and>
           sublist ''AZURE_COSMOS_CONNECTION_STRING'' m)) \<and>
   (populateEnvironmentFromKeyVault X
      (if env init ''NODE_ENV'' \<noteq> Some ''production'' then dotenv_config X init else init) = (None, mid) \<and>
    populateEnvironmentFromAppConfig X mid = (None, st) \<longrightarrow>
      getConfig X init = (Inr (fst (loadConfiguration X st)), snd (loadConfiguration X st)))"
proof -
  have warned: "\<exists>m. (Warn, m) \<in> set (logged (snd (loadConfiguration X st))) \<and>
           sublist ''AZURE_COSMOS_CONNECTION_STRING'' m"
    if "DatabaseConfig.connectionString (config_database X (env st)) = []"
    using loadConfiguration_warns [OF that] database_warning_names_variable by blast
  have returns: "getConfig X init = (Inr (fst (loadConfiguration X st)), snd (loadConfiguration X st))"
    if "populateEnvironmentFromKeyVault X
      (if env init ''NODE_ENV'' \<noteq> Some ''production'' then dotenv_config X init else init) = (None, mid)"
      and "populateEnvironmentFromAppConfig X mid = (None, st)"
    using that by (simp add: getConfig_def Let_def split: prod.splits)
  show ?thesis
    using warned returns by (simp add: loadConfiguration_result loadConfiguration_env)
qed

text \<open>
  In production with no endpoint and no connection string set, \<open>getConfig\<close> of the sample
  returns the structure with both connection strings empty and has logged the warning.
\<close>

theorem extraction_always_returns_witness:
  "fst (getConfig sample (started [(''NODE_ENV'', ''production'')])) =
     Inr \<lparr>observability = \<lparr>ObservabilityConfig.connectionString = [], roleName = ''API''\<rparr>,
          database = \<lparr>DatabaseConfig.connectionString = [], databaseName = ''Todo''\<rparr>\<rparr> \<and>
   (\<exists>m. (Warn, m) \<in> set (logged (snd (getConfig sample (started [(''NODE_ENV'', ''production'')])))) \<and>
        sublist ''AZURE_COSMOS_CONNECTION_STRING'' m)"
proof -
  let ?a = "started [(''NODE_ENV'', ''production'')]"
  let ?b = "snd (populateEnvironmentFromKeyVault sample ?a)"
  let ?c = "snd (populateEnvironmentFromAppConfig sample ?b)"
  have kv: "populateEnvironmentFromKeyVault sample
      (if env ?a ''NODE_ENV'' \<noteq> Some ''production'' then dotenv_config sample ?a else ?a) = (None, ?b)"
    by (simp add: populateEnvironmentFromKeyVault_def started_def Let_def)
  have env2: "env ?b = env ?a"
    by (simp add: populateEnvironmentFromKeyVault_def started_def Let_def)
  have ac: "populateEnvironmentFromAppConfig sample ?b = (None, ?c)"
    using env2 by (simp add: populateEnvironmentFromAppConfig_def started_def Let_def)
  have env3: "env ?c = env ?a"
    using env2 by (simp add: populateEnvironmentFromAppConfig_def started_def Let_def)
  have empty: "DatabaseConfig.connectionString (config_database sample (env ?c)) = []"
    using env3 by (simp add: sample_def started_def)
  have obs: "config_observability sample (env ?c) =
      \<lparr>ObservabilityConfig.connectionString = [], roleName = ''API''\<rparr>"
    using env3 by (simp add: sample_def started_def)
  have db: "config_database sample (env ?c) =
      \<lparr>DatabaseConfig.connectionString = [], databaseName = ''Todo''\<rparr>"
    using env3 by (simp add: sample_def started_def)
  from extraction_always_returns [where X = sample and st = ?c and init = ?a and mid = ?b] kv ac empty
  have "getConfig sample ?a = (Inr (fst (loadConfiguration sample ?c)), snd (loadConfiguration sample ?c))"
    and "fst (loadConfiguration sample ?c) =
       \<lparr>observability = config_observability sample (env ?c), database = config_database sample (env ?c)\<rparr>"
    and "\<exists>m. (Warn, m) \<in> set (logged (snd (loadConfiguration sample ?c))) \<and>
           sublist ''AZURE_COSMOS_CONNECTION_STRING'' m"
    by blast+
  then show ?thesis using obs db by simp
qed

subsection \<open>The loop over the settings, combined variant\<close>

lemma settings_loop_result:
  "fst (settings_loop ss st) = None \<and>
   env (snd (settings_loop ss st)) = write_all key setting_value ss (env st) \<and>
   logged (snd (settings_loop ss st)) = logged st \<and>
   calls (snd (settings_loop ss st)) = calls st"
proof (induction ss arbitrary: st)
  case Nil
  then show ?case by simp
next
  case (Cons s ss)
  from Cons [of "set_env (key s) (setting_value s) st"]
  show ?case by simp
qed

subsection \<open>Resolution of a reference\<close>

lemma getSecretFromKeyVault_state:
  "env (snd (getSecretFromKeyVault X s c st)) = env st \<and>
   logged (snd (getSecretFromKeyVault X s c st)) = logged st"
  by (simp add: getSecretFromKeyVault_def Let_def
      split: option.splits sum.splits json.splits)

lemma getSecretFromKeyVault_reference:
  assumes "setting_value s = Some v" and "v \<noteq> []"
    and "JSON_parse X v = Inr obj" and "get_uri obj = Some (JStr u)" and "u \<noteq> []"
  shows "getSecretFromKeyVault X s c st =
     (case getSecret X (''https://'' @ js_String (index (split_slash u) 2)) c (index (split_slash u) 4) of
        Inl err \<Rightarrow> Inl err
      | Inr secret \<Rightarrow> Inr (secret_value secret),
      called (GetSecret (''https://'' @ js_String (index (split_slash u) 2)) c (index (split_slash u) 4)) st)"
proof -
  from assms(4) obtain kvs where "obj = JObj kvs" by (cases obj) simp_all
  with assms show ?thesis
    by (simp add: getSecretFromKeyVault_def Let_def split: sum.splits)
qed

lemma getSecretFromKeyVault_empty_uri:
  assumes "setting_value s = Some v" and "v \<noteq> []"
    and "JSON_parse X v = Inr obj" and "get_uri obj = Some (JStr [])"
  shows "getSecretFromKeyVault X s c st = (Inl (not_a_reference s), st)"
proof -
  from assms(4) obtain kvs where "obj = JObj kvs" by (cases obj) simp_all
  with assms show ?thesis
    by (simp add: getSecretFromKeyVault_def)
qed

subsection \<open>The loop over the settings, reference-resolving variant\<close>

lemma settings_loop_kvref_append:
  "settings_loop_kvref X c (xs @ ys) st =
     (case settings_loop_kvref X c xs st of
        (Some err, st1) \<Rightarrow> (Some err, st1)
      | (None, st1) \<Rightarrow> settings_loop_kvref X c ys st1)"
  by (induction xs arbitrary: st) (auto split: prod.splits sum.splits option.splits)

lemma getSecretFromKeyVault_result_independent:
  "fst (getSecretFromKeyVault X s c st) = fst (getSecretFromKeyVault X s c st')"
  by (simp add: getSecretFromKeyVault_def Let_def
      split: option.splits sum.splits json.splits)

lemma settings_loop_kvref_independent:
  "env st = env st' \<Longrightarrow>
   fst (settings_loop_kvref X c ss st) = fst (settings_loop_kvref X c ss st') \<and>
   env (snd (settings_loop_kvref X c ss st)) = env (snd (settings_loop_kvref X c ss st'))"
proof (induction ss arbitrary: st st')
  case Nil
  then show ?case by simp
next
  case (Cons s ss)
  show ?case
  proof (cases "truthy (setting_value s) \<and> isKeyVaultReference X s")
    case False
    with Cons.IH [of st st'] Cons.IH [of "set_env (key s) (setting_value s) st" "set_env (key s) (setting_value s) st'"]
      Cons.prems
    show ?thesis by simp
  next
    case True
    obtain r st1 where a: "getSecretFromKeyVault X s c st = (r, st1)"
      by (cases "getSecretFromKeyVault X s c st")
    obtain r' st1' where b: "getSecretFromKeyVault X s c st' = (r', st1')"
      by (cases "getSecretFromKeyVault X s c st'")
    from a b getSecretFromKeyVault_result_independent [of X s c st st'] have rr: "r' = r" by simp
    from a b getSecretFromKeyVault_state [of X s c st] getSecretFromKeyVault_state [of X s c st'] Cons.prems
    have ee: "env st1 = env st1'" by simp
    show ?thesis
    proof (cases r)
      case (Inl err)
      with True a b rr ee show ?thesis by simp
    next
      case (Inr v)
      with True a b rr Cons.IH [of "set_env (key s) v st1" "set_env (key s) v st1'"] ee
      show ?thesis by simp
    qed
  qed
qed

lemma getSecretFromKeyVault_resolved:
  "fst (getSecretFromKeyVault X s c st) = resolved_value X c s"
  unfolding resolved_value_def by (rule getSecretFromKeyVault_result_independent)

text \<open>
  A name is left alone by the settings of empty value, whether the loop ends or throws;
  a name that no variable can have is left alone by every setting.
\<close>

lemma settings_loop_kvref_untouched:
  "\<not> valid_name n \<or> (\<forall>t \<in> set ss. c_string (key t) = n \<longrightarrow> \<not> truthy (setting_value t)) \<Longrightarrow>
   env (snd (settings_loop_kvref X c ss st)) n = env st n"
proof (induction ss arbitrary: st)
  case Nil
  then show ?case by simp
next
  case (Cons s ss)
  then have rest: "\<not> valid_name n \<or> (\<forall>t \<in> set ss. c_string (key t) = n \<longrightarrow> \<not> truthy (setting_value t))"
    by auto
  show ?case
  proof (cases "truthy (setting_value s)")
    case False
    with Cons.IH [OF rest] show ?thesis by simp
  next
    case True
    with Cons.prems have other: "\<not> (valid_name (c_string (key s)) \<and> c_string (key s) = n)" by auto
    show ?thesis
      using True other Cons.IH [OF rest] getSecretFromKeyVault_state [of X s c st]
      by (auto simp: assign_env_apply split: prod.splits sum.splits)
  qed
qed

text \<open>
  The last setting of a name that has a value decides the name: its value when it is a
  literal, the secret it resolves to when it is a reference.
\<close>

lemma settings_loop_kvref_last:
  assumes ok: "fst (settings_loop_kvref X c (pre @ s # post) st) = None"
    and tr: "truthy (setting_value s)" and valid: "valid_name (c_string (key s))"
    and quiet: "\<forall>t \<in> set post. c_string (key t) = c_string (key s) \<longrightarrow> \<not> truthy (setting_value t)"
  shows "(\<not> isKeyVaultReference X s \<longrightarrow>
           env (snd (settings_loop_kvref X c (pre @ s # post) st)) (c_string (key s)) =
             Some (c_string (js_String (setting_value s)))) \<and>
         (\<forall>v. isKeyVaultReference X s \<and> resolved_value X c s = Inr v \<longrightarrow>
           env (snd (settings_loop_kvref X c (pre @ s # post) st)) (c_string (key s)) =
             Some (c_string (js_String v)))"
proof -
  obtain r st1 where pre: "settings_loop_kvref X c pre st = (r, st1)"
    by (cases "settings_loop_kvref X c pre st")
  with ok have none: "r = None"
    by (cases r) (simp_all add: settings_loop_kvref_append)
  from quiet have q: "\<not> valid_name (c_string (key s)) \<or>
      (\<forall>t \<in> set post. c_string (key t) = c_string (key s) \<longrightarrow> \<not> truthy (setting_value t))"
    by blast
  show ?thesis
  proof (intro conjI allI impI)
    assume "\<not> isKeyVaultReference X s"
    with pre none tr
    have "settings_loop_kvref X c (pre @ s # post) st =
            settings_loop_kvref X c post (set_env (key s) (setting_value s) st1)"
      by (simp add: settings_loop_kvref_append)
    then show "env (snd (settings_loop_kvref X c (pre @ s # post) st)) (c_string (key s)) =
             Some (c_string (js_String (setting_value s)))"
      using settings_loop_kvref_untouched [OF q, of X c "set_env (key s) (setting_value s) st1"] valid
      by (simp add: assign_env_apply)
  next
    fix v
    assume ref: "isKeyVaultReference X s \<and> resolved_value X c s = Inr v"
    obtain st2 where got: "getSecretFromKeyVault X s c st1 = (Inr v, st2)"
      using ref getSecretFromKeyVault_resolved [of X s c st1]
      by (cases "getSecretFromKeyVault X s c st1") simp
    with pre none tr ref
    have "settings_loop_kvref X c (pre @ s # post) st =
            settings_loop_kvref X c post (set_env (key s) v st2)"
      by (simp add: settings_loop_kvref_append)
    then show "env (snd (settings_loop_kvref X c (pre @ s # post) st)) (c_string (key s)) =
             Some (c_string (js_String v))"
      using settings_loop_kvref_untouched [OF q, of X c "set_env (key s) v st2"] valid
      by (simp add: assign_env_apply)
  qed
qed

lemma last_filter_split:
  "filter P xs \<noteq> [] \<Longrightarrow>
   \<exists>pre post. xs = pre @ last (filter P xs) # post \<and> P (last (filter P xs)) \<and> (\<forall>t \<in> set post. \<not> P t)"
proof (induction xs rule: rev_induct)
  case Nil
  then show ?case by simp
next
  case (snoc x xs)
  show ?case
  proof (cases "P x")
    case True
    then have "xs @ [x] = xs @ last (filter P (xs @ [x])) # [] \<and> P (last (filter P (xs @ [x]))) \<and>
        (\<forall>t \<in> set []. \<not> P t)" by simp
    then show ?thesis by blast
  next
    case False
    with snoc.prems have ne: "filter P xs \<noteq> []" by simp
    from snoc.IH [OF ne] obtain pre post where
      "xs = pre @ last (filter P xs) # post" "P (last (filter P xs))" "\<forall>t \<in> set post. \<not> P t"
      by blast
    with False have "xs @ [x] = pre @ last (filter P (xs @ [x])) # (post @ [x]) \<and>
        P (last (filter P (xs @ [x]))) \<and> (\<forall>t \<in> set (post @ [x]). \<not> P t)"
      by simp
    then show ?thesis by blast
  qed
qed

lemma settings_loop_kvref_env_last:
  assumes "fst (settings_loop_kvref X c ss st) = None" and "valid_name n"
    and "[t \<leftarrow> ss. c_string (key t) = n \<and> truthy (setting_value t)] \<noteq> []"
  shows "(\<not> isKeyVaultReference X (last [t \<leftarrow> ss. c_string (key t) = n \<and> truthy (setting_value t)]) \<longrightarrow>
           env (snd (settings_loop_kvref X c ss st)) n =
             Some (c_string (js_String (setting_value
               (last [t \<leftarrow> ss. c_string (key t) = n \<and> truthy (setting_value t)]))))) \<and>
         (\<forall>v. isKeyVaultReference X (last [t \<leftarrow> ss. c_string (key t) = n \<and> truthy (setting_value t)]) \<and>
              resolved_value X c (last [t \<leftarrow> ss. c_string (key t) = n \<and> truthy (setting_value t)]) = Inr v \<longrightarrow>
           env (snd (settings_loop_kvref X c ss st)) n = Some (c_string (js_String v)))"
proof -
  let ?P = "\<lambda>t. c_string (key t) = n \<and> truthy (setting_value t)"
  let ?s = "last (filter ?P ss)"
  from last_filter_split [of ?P ss, OF assms(3)] obtain pre post where
    split: "ss = pre @ ?s # post" and here: "?P ?s" and after: "\<forall>t \<in> set post. \<not> ?P t"
    by blast
  from after here have quiet: "\<forall>t \<in> set post. c_string (key t) = c_string (key ?s) \<longrightarrow> \<not> truthy (setting_value t)"
    by auto
  from assms(1) split have ok: "fst (settings_loop_kvref X c (pre @ ?s # post) st) = None" by simp
  from here have tr: "truthy (setting_value ?s)" by simp
  from here assms(2) have valid: "valid_name (c_string (key ?s))" by simp
  from settings_loop_kvref_last [OF ok tr valid quiet] split here
  show ?thesis by simp
qed

text \<open>The environment a loop that ends leaves is the one its assignments make, in order.\<close>

lemma write_all_append:
  "write_all kf vf (xs @ ys) e = write_all kf vf ys (write_all kf vf xs e)"
  by (simp add: write_all_def)

lemma assignments_simps [simp]:
  "assignments X c [] = []"
  "assignments X c (s # ss) = assignment X c s @ assignments X c ss"
  "assignments X c (xs @ ys) = assignments X c xs @ assignments X c ys"
  by (simp_all add: assignments_def)

lemma settings_loop_kvref_env:
  "fst (settings_loop_kvref X c ss st) = None \<Longrightarrow>
   env (snd (settings_loop_kvref X c ss st)) = write_all fst snd (assignments X c ss) (env st)"
proof (induction ss arbitrary: st)
  case Nil
  then show ?case by simp
next
  case (Cons s ss)
  show ?case
  proof (cases "truthy (setting_value s) \<and> isKeyVaultReference X s")
    case False
    show ?thesis
    proof (cases "truthy (setting_value s)")
      case True
      with False Cons.prems Cons.IH [of "set_env (key s) (setting_value s) st"]
      show ?thesis by (simp add: assignment_def write_all_append)
    next
      case no: False
      with Cons.prems Cons.IH [of st] show ?thesis by (simp add: assignment_def)
    qed
  next
    case True
    obtain r st1 where a: "getSecretFromKeyVault X s c st = (r, st1)"
      by (cases "getSecretFromKeyVault X s c st")
    with getSecretFromKeyVault_resolved [of X s c st] have res: "resolved_value X c s = r" by simp
    from a getSecretFromKeyVault_state [of X s c st] have same: "env st1 = env st" by simp
    show ?thesis
    proof (cases r)
      case (Inl err)
      with True a Cons.prems show ?thesis by simp
    next
      case (Inr v)
      with True a Cons.prems have "fst (settings_loop_kvref X c ss (set_env (key s) v st1)) = None"
        by simp
      from Cons.IH [OF this] True a Inr res same
      show ?thesis by (simp add: assignment_def write_all_append)
    qed
  qed
qed

subsection \<open>The handlers\<close>

lemma for_await_end_simps [simp]:
  "fst (for_await_end failure p) = (case fst p of Some err \<Rightarrow> Some err | None \<Rightarrow> failure)"
  "snd (for_await_end failure p) = snd p"
  by (cases p; cases "fst p"; simp)+

lemma catch_log_rethrow_simps [simp]:
  "fst (catch_log_rethrow m p) = fst p"
  "env (snd (catch_log_rethrow m p)) = env (snd p)"
  "calls (snd (catch_log_rethrow m p)) = calls (snd p)"
  by (cases p; cases "fst p"; simp)+

subsection \<open>The populations, endpoint set\<close>

lemma populateEnvironmentFromKeyVault_unfold:
  assumes "ep = or_empty (env st ''AZURE_KEY_VAULT_ENDPOINT'')" and "ep \<noteq> []"
    and "c = DefaultAzureCredential (env st ''AZURE_CLIENT_ID'')"
    and "listPropertiesOfSecrets X ep c = (ps, failure)"
  shows "populateEnvironmentFromKeyVault X st =
      catch_log_rethrow ''Error authenticating with Azure KeyVault.  Ensure your managed identity or service principal has GET/LIST permissions. Error: ''
        (for_await_end failure (secrets_loop X ep c ps
           (called (ListPropertiesOfSecrets ep c)
              (logger Info ''Populating environment from Azure KeyVault...'' st))))"
  using assms by (simp add: populateEnvironmentFromKeyVault_def Let_def)

lemma populateEnvironmentFromAppConfig_unfold:
  assumes "ep = or_empty (env st ''AZURE_APPCONFIGURATION_ENDPOINT'')" and "ep \<noteq> []"
    and "c = DefaultAzureCredential (env st ''AZURE_CLIENT_ID'')"
    and "listConfigurationSettings X ep c = (ss, failure)"
  shows "populateEnvironmentFromAppConfig X st =
      catch_log_rethrow ''Error authenticating with Azure App Configuration. Ensure your managed identity or service principal has GET/LIST permissions. Error: ''
        (for_await_end failure (settings_loop ss
           (called (ListConfigurationSettings ep c)
              (logger Info ''Populating environment from Azure AppConfiguration...'' st))))"
  using assms by (simp add: populateEnvironmentFromAppConfig_def Let_def)

lemma populateEnvironmentFromAppConfig_kvref_unfold:
  assumes "ep = or_empty (env st ''AZURE_APPCONFIGURATION_ENDPOINT'')" and "ep \<noteq> []"
    and "c = DefaultAzureCredential (env st ''AZURE_CLIENT_ID'')"
    and "listConfigurationSettings X ep c = (ss, failure)"
  shows "populateEnvironmentFromAppConfig_kvref X st =
      catch_log_rethrow ''Error authenticating with Azure App Configuration or Keyvault. Ensure your managed identity or service principal has GET/LIST permissions. Error: ''
        (for_await_end failure (settings_loop_kvref X c ss
           (called (ListConfigurationSettings ep c)
              (logger Info ''Populating environment from Azure AppConfiguration...'' st))))"
  using assms by (simp add: populateEnvironmentFromAppConfig_kvref_def Let_def)

lemma populateEnvironmentFromAppConfig_result:
  assumes "ep = or_empty (env st ''AZURE_APPCONFIGURATION_ENDPOINT'')" and "ep \<noteq> []"
    and "c = DefaultAzureCredential (env st ''AZURE_CLIENT_ID'')"
    and "listConfigurationSettings X ep c = (ss, failure)"
  shows "fst (populateEnvironmentFromAppConfig X st) = failure \<and>
         env (snd (populateEnvironmentFromAppConfig X st)) = write_all key setting_value ss (env st) \<and>
         calls (snd (populateEnvironmentFromAppConfig X st)) = calls st @ [ListConfigurationSettings ep c]"
  by (simp add: populateEnvironmentFromAppConfig_unfold [OF assms] settings_loop_result)

subsection \<open>Partial population\<close>

text \<open>
  C10, as amended. Neither population rolls back. When the enumeration of the secrets
  fails after its items, or the retrieval of one secret fails,
  \<open>populateEnvironmentFromKeyVault\<close> raises that error and leaves the environment as the
  assignments of the secrets retrieved before make it, in order. When the enumeration
  of the settings fails after its items, or the resolution of one reference fails,
  \<open>populateEnvironmentFromAppConfig_kvref\<close> raises that error and leaves the environment
  as the assignments of the settings before the failure make it, in order: the value for
  a literal, the resolved secret for a reference, and no assignment for a setting of
  empty value. An assignment reads its key up to the first NUL character; when that name
  is not empty and has no \<^verbatim>\<open>=\<close> it stores the value up to the first NUL character under
  it, and otherwise it stores nothing. So a name holds what the last assignment to it
  stored, and a name with no assignment holds what it held before.
\<close>

theorem population_is_not_atomic:
  "(ep = or_empty (env st ''AZURE_KEY_VAULT_ENDPOINT'') \<and> ep \<noteq> [] \<and>
    c = DefaultAzureCredential (env st ''AZURE_CLIENT_ID'') \<and>
    listPropertiesOfSecrets X ep c = (pre @ rest, failure) \<and>
    map (\<lambda>p. getSecret X ep c (Some (name p))) pre = map Inr secrets \<and>
    (rest = [] \<and> failure = Some err \<or>
     (\<exists>p post. rest = p # post \<and> getSecret X ep c (Some (name p)) = Inl err))
    \<longrightarrow>
      fst (populateEnvironmentFromKeyVault X st) = Some err \<and>
      env (snd (populateEnvironmentFromKeyVault X st)) =
        write_all (\<lambda>s. replace_dashes (secret_name s)) secret_value secrets (env st) \<and>
      (\<forall>s \<in> set secrets. valid_name (c_string (replace_dashes (secret_name s))) \<longrightarrow>
         env (snd (populateEnvironmentFromKeyVault X st)) (c_string (replace_dashes (secret_name s))) =
           Some (c_string (js_String (secret_value
             (last [s' \<leftarrow> secrets. c_string (replace_dashes (secret_name s')) =
                                   c_string (replace_dashes (secret_name s))]))))) \<and>
      (\<forall>n. \<not> valid_name n \<or> [s' \<leftarrow> secrets. c_string (replace_dashes (secret_name s')) = n] = [] \<longrightarrow>
         env (snd (populateEnvironmentFromKeyVault X st)) n = env st n))
   \<and>
   (ep' = or_empty (env st ''AZURE_APPCONFIGURATION_ENDPOINT'') \<and> ep' \<noteq> [] \<and>
    c = DefaultAzureCredential (env st ''AZURE_CLIENT_ID'') \<and>
    listConfigurationSettings X ep' c = (pre' @ rest', failure') \<and>
    fst (settings_loop_kvref X c pre' st) = None \<and>
    (rest' = [] \<and> failure' = Some err' \<or>
     (\<exists>s post. rest' = s # post \<and> truthy (setting_value s) \<and> isKeyVaultReference X s \<and>
        fst (getSecretFromKeyVault X s c st) = Inl err'))
    \<longrightarrow>
      fst (populateEnvironmentFromAppConfig_kvref X st) = Some err' \<and>
      env (snd (populateEnvironmentFromAppConfig_kvref X st)) =
        env (snd (settings_loop_kvref X c pre' st)) \<and>
      env (snd (populateEnvironmentFromAppConfig_kvref X st)) =
        write_all fst snd (assignments X c pre') (env st) \<and>
      (\<forall>n. valid_name n \<and> [t \<leftarrow> pre'. c_string (key t) = n \<and> truthy (setting_value t)] \<noteq> [] \<longrightarrow>
         (\<not> isKeyVaultReference X (last [t \<leftarrow> pre'. c_string (key t) = n \<and> truthy (setting_value t)]) \<longrightarrow>
            env (snd (populateEnvironmentFromAppConfig_kvref X st)) n =
              Some (c_string (js_String (setting_value
                (last [t \<leftarrow> pre'. c_string (key t) = n \<and> truthy (setting_value t)]))))) \<and>
         (\<forall>v. isKeyVaultReference X (last [t \<leftarrow> pre'. c_string (key t) = n \<and> truthy (setting_value t)]) \<and>
              resolved_value X c (last [t \<leftarrow> pre'. c_string (key t) = n \<and> truthy (setting_value t)]) = Inr v \<longrightarrow>
            env (snd (populateEnvironmentFromAppConfig_kvref X st)) n = Some (c_string (js_String v)))) \<and>
      (\<forall>n. \<not> valid_name n \<or> (\<forall>t \<in> set pre'. c_string (key t) = n \<longrightarrow> \<not> truthy (setting_value t)) \<longrightarrow>
         env (snd (populateEnvironmentFromAppConfig_kvref X st)) n = env st n))"
proof (intro conjI impI)
  assume h: "ep = or_empty (env st ''AZURE_KEY_VAULT_ENDPOINT'') \<and> ep \<noteq> [] \<and>
    c = DefaultAzureCredential (env st ''AZURE_CLIENT_ID'') \<and>
    listPropertiesOfSecrets X ep c = (pre @ rest, failure) \<and>
    map (\<lambda>p. getSecret X ep c (Some (name p))) pre = map Inr secrets \<and>
    (rest = [] \<and> failure = Some err \<or>
     (\<exists>p post. rest = p # post \<and> getSecret X ep c (Some (name p)) = Inl err))"
  let ?b = "called (ListPropertiesOfSecrets ep c)
                (logger Info ''Populating environment from Azure KeyVault...'' st)"
  let ?kf = "\<lambda>s. replace_dashes (secret_name s)"
  let ?w = "write_all ?kf secret_value secrets (env st)"
  from h have unfold: "populateEnvironmentFromKeyVault X st =
      catch_log_rethrow ''Error authenticating with Azure KeyVault.  Ensure your managed identity or service principal has GET/LIST permissions. Error: ''
        (for_await_end failure (secrets_loop X ep c (pre @ rest) ?b))"
    using populateEnvironmentFromKeyVault_unfold [of ep st c X "pre @ rest" failure] by blast
  from h have fetched: "map (\<lambda>p. getSecret X ep c (Some (name p))) pre = map Inr secrets" by blast
  from h have "rest = [] \<and> failure = Some err \<or>
     (\<exists>p post. rest = p # post \<and> getSecret X ep c (Some (name p)) = Inl err)" by blast
  then have both: "fst (populateEnvironmentFromKeyVault X st) = Some err \<and>
      env (snd (populateEnvironmentFromKeyVault X st)) = ?w"
  proof
    assume "rest = [] \<and> failure = Some err"
    with unfold secrets_loop_ok [OF fetched, of ?b] show ?thesis by simp
  next
    assume "\<exists>p post. rest = p # post \<and> getSecret X ep c (Some (name p)) = Inl err"
    then obtain p post where "rest = p # post" and "getSecret X ep c (Some (name p)) = Inl err"
      by blast
    with unfold secrets_loop_fails [OF fetched, of p err post ?b] show ?thesis by simp
  qed
  then show "fst (populateEnvironmentFromKeyVault X st) = Some err"
    and kept: "env (snd (populateEnvironmentFromKeyVault X st)) = ?w" by simp_all
  show "\<forall>s \<in> set secrets. valid_name (c_string (?kf s)) \<longrightarrow>
         env (snd (populateEnvironmentFromKeyVault X st)) (c_string (?kf s)) =
           Some (c_string (js_String (secret_value
             (last [s' \<leftarrow> secrets. c_string (?kf s') = c_string (?kf s)]))))"
  proof (intro ballI impI)
    fix s
    assume "s \<in> set secrets" and valid: "valid_name (c_string (?kf s))"
    then have "[s' \<leftarrow> secrets. c_string (?kf s') = c_string (?kf s)] \<noteq> []"
      by (auto simp: filter_empty_conv)
    from write_all_lookup [OF valid this] kept
    show "env (snd (populateEnvironmentFromKeyVault X st)) (c_string (?kf s)) =
           Some (c_string (js_String (secret_value
             (last [s' \<leftarrow> secrets. c_string (?kf s') = c_string (?kf s)]))))"
      by simp
  qed
  show "\<forall>n. \<not> valid_name n \<or> [s' \<leftarrow> secrets. c_string (?kf s') = n] = [] \<longrightarrow>
         env (snd (populateEnvironmentFromKeyVault X st)) n = env st n"
    using kept write_all_other [where xs = secrets and kf = ?kf and vf = secret_value and e = "env st"]
    by simp
next
  assume h: "ep' = or_empty (env st ''AZURE_APPCONFIGURATION_ENDPOINT'') \<and> ep' \<noteq> [] \<and>
    c = DefaultAzureCredential (env st ''AZURE_CLIENT_ID'') \<and>
    listConfigurationSettings X ep' c = (pre' @ rest', failure') \<and>
    fst (settings_loop_kvref X c pre' st) = None \<and>
    (rest' = [] \<and> failure' = Some err' \<or>
     (\<exists>s post. rest' = s # post \<and> truthy (setting_value s) \<and> isKeyVaultReference X s \<and>
        fst (getSecretFromKeyVault X s c st) = Inl err'))"
  let ?b = "called (ListConfigurationSettings ep' c)
                (logger Info ''Populating environment from Azure AppConfiguration...'' st)"
  from h have unfold: "populateEnvironmentFromAppConfig_kvref X st =
      catch_log_rethrow ''Error authenticating with Azure App Configuration or Keyvault. Ensure your managed identity or service principal has GET/LIST permissions. Error: ''
        (for_await_end failure' (settings_loop_kvref X c (pre' @ rest') ?b))"
    using populateEnvironmentFromAppConfig_kvref_unfold [of ep' st c X "pre' @ rest'" failure'] by blast
  from h have ok: "fst (settings_loop_kvref X c pre' st) = None" by blast
  have same: "fst (settings_loop_kvref X c pre' ?b) = fst (settings_loop_kvref X c pre' st) \<and>
      env (snd (settings_loop_kvref X c pre' ?b)) = env (snd (settings_loop_kvref X c pre' st))"
    using settings_loop_kvref_independent [of ?b st X c pre'] by simp
  obtain mid where pre: "settings_loop_kvref X c pre' ?b = (None, mid)"
    and mid: "env mid = env (snd (settings_loop_kvref X c pre' st))"
    using same h by (cases "settings_loop_kvref X c pre' ?b") auto
  from h have "rest' = [] \<and> failure' = Some err' \<or>
     (\<exists>s post. rest' = s # post \<and> truthy (setting_value s) \<and> isKeyVaultReference X s \<and>
        fst (getSecretFromKeyVault X s c st) = Inl err')" by blast
  then have both: "fst (populateEnvironmentFromAppConfig_kvref X st) = Some err' \<and>
      env (snd (populateEnvironmentFromAppConfig_kvref X st)) = env (snd (settings_loop_kvref X c pre' st))"
  proof
    assume "rest' = [] \<and> failure' = Some err'"
    with unfold pre mid show ?thesis by simp
  next
    assume "\<exists>s post. rest' = s # post \<and> truthy (setting_value s) \<and> isKeyVaultReference X s \<and>
        fst (getSecretFromKeyVault X s c st) = Inl err'"
    then obtain s post where r: "rest' = s # post" and t: "truthy (setting_value s)"
      and k: "isKeyVaultReference X s" and f: "fst (getSecretFromKeyVault X s c st) = Inl err'"
      by blast
    obtain fin where g: "getSecretFromKeyVault X s c mid = (Inl err', fin)"
      using f getSecretFromKeyVault_result_independent [of X s c mid st]
      by (cases "getSecretFromKeyVault X s c mid") simp
    with getSecretFromKeyVault_state [of X s c mid] have "env fin = env mid" by simp
    with unfold pre mid r t k g show ?thesis
      by (simp add: settings_loop_kvref_append)
  qed
  then show "fst (populateEnvironmentFromAppConfig_kvref X st) = Some err'"
    and kept: "env (snd (populateEnvironmentFromAppConfig_kvref X st)) =
        env (snd (settings_loop_kvref X c pre' st))" by simp_all
  show "env (snd (populateEnvironmentFromAppConfig_kvref X st)) =
        write_all fst snd (assignments X c pre') (env st)"
    using kept settings_loop_kvref_env [OF ok] by simp
  show "\<forall>n. valid_name n \<and> [t \<leftarrow> pre'. c_string (key t) = n \<and> truthy (setting_value t)] \<noteq> [] \<longrightarrow>
         (\<not> isKeyVaultReference X (last [t \<leftarrow> pre'. c_string (key t) = n \<and> truthy (setting_value t)]) \<longrightarrow>
            env (snd (populateEnvironmentFromAppConfig_kvref X st)) n =
              Some (c_string (js_String (setting_value
                (last [t \<leftarrow> pre'. c_string (key t) = n \<and> truthy (setting_value t)]))))) \<and>
         (\<forall>v. isKeyVaultReference X (last [t \<leftarrow> pre'. c_string (key t) = n \<and> truthy (setting_value t)]) \<and>
              resolved_value X c (last [t \<leftarrow> pre'. c_string (key t) = n \<and> truthy (setting_value t)]) = Inr v \<longrightarrow>
            env (snd (populateEnvironmentFromAppConfig_kvref X st)) n = Some (c_string (js_String v)))"
  proof (intro allI impI)
    fix n
    assume a: "valid_name n \<and> [t \<leftarrow> pre'. c_string (key t) = n \<and> truthy (setting_value t)] \<noteq> []"
    then have v: "valid_name n" and ne: "[t \<leftarrow> pre'. c_string (key t) = n \<and> truthy (setting_value t)] \<noteq> []"
      by blast+
    from settings_loop_kvref_env_last [OF ok v ne] kept
    show "(\<not> isKeyVaultReference X (last [t \<leftarrow> pre'. c_string (key t) = n \<and> truthy (setting_value t)]) \<longrightarrow>
            env (snd (populateEnvironmentFromAppConfig_kvref X st)) n =
              Some (c_string (js_String (setting_value
                (last [t \<leftarrow> pre'. c_string (key t) = n \<and> truthy (setting_value t)]))))) \<and>
         (\<forall>v. isKeyVaultReference X (last [t \<leftarrow> pre'. c_string (key t) = n \<and> truthy (setting_value t)]) \<and>
              resolved_value X c (last [t \<leftarrow> pre'. c_string (key t) = n \<and> truthy (setting_value t)]) = Inr v \<longrightarrow>
            env (snd (populateEnvironmentFromAppConfig_kvref X st)) n = Some (c_string (js_String v)))"
      by simp
  qed
  show "\<forall>n. \<not> valid_name n \<or> (\<forall>t \<in> set pre'. c_string (key t) = n \<longrightarrow> \<not> truthy (setting_value t)) \<longrightarrow>
         env (snd (populateEnvironmentFromAppConfig_kvref X st)) n = env st n"
    using kept settings_loop_kvref_untouched [where ss = pre' and X = X and c = c and st = st]
    by simp
qed

text \<open>
  On the sample: the vault \<^verbatim>\<open>locked-kv\<close> refuses the second secret, and \<^verbatim>\<open>A_B\<close> stays
  set from the first; the store \<^verbatim>\<open>broken-ac\<close> fails on its second setting, \<^verbatim>\<open>K1\<close> stays
  set and \<^verbatim>\<open>K3\<close> is never reached.
\<close>

theorem population_is_not_atomic_witness:
  \<open>fst (populateEnvironmentFromKeyVault sample
      (started [(''AZURE_KEY_VAULT_ENDPOINT'', ''https://locked-kv.vault.azure.net''),
                (''AZURE_APPCONFIGURATION_ENDPOINT'', ''https://broken-ac.azconfig.io'')])) = Some denied \<and>
   env (snd (populateEnvironmentFromKeyVault sample
      (started [(''AZURE_KEY_VAULT_ENDPOINT'', ''https://locked-kv.vault.azure.net''),
                (''AZURE_APPCONFIGURATION_ENDPOINT'', ''https://broken-ac.azconfig.io'')]))) ''A_B'' = Some ''first'' \<and>
   fst (populateEnvironmentFromAppConfig_kvref sample
      (started [(''AZURE_KEY_VAULT_ENDPOINT'', ''https://locked-kv.vault.azure.net''),
                (''AZURE_APPCONFIGURATION_ENDPOINT'', ''https://broken-ac.azconfig.io'')])) =
     Some (not_a_reference \<lparr>key = ''K2'', setting_value = Some ''{"uri":""}''\<rparr>) \<and>
   env (snd (populateEnvironmentFromAppConfig_kvref sample
      (started [(''AZURE_KEY_VAULT_ENDPOINT'', ''https://locked-kv.vault.azure.net''),
                (''AZURE_APPCONFIGURATION_ENDPOINT'', ''https://broken-ac.azconfig.io'')]))) ''K1'' = Some ''v1'' \<and>
   env (snd (populateEnvironmentFromAppConfig_kvref sample
      (started [(''AZURE_KEY_VAULT_ENDPOINT'', ''https://locked-kv.vault.azure.net''),
                (''AZURE_APPCONFIGURATION_ENDPOINT'', ''https://broken-ac.azconfig.io'')]))) ''K3'' = None\<close>
proof -
  let ?a = "started [(''AZURE_KEY_VAULT_ENDPOINT'', ''https://locked-kv.vault.azure.net''),
                (''AZURE_APPCONFIGURATION_ENDPOINT'', ''https://broken-ac.azconfig.io'')]"
  let ?c = "DefaultAzureCredential None"
  let ?vault = "''https://locked-kv.vault.azure.net''"
  let ?store = "''https://broken-ac.azconfig.io''"
  let ?s1 = "\<lparr>secret_name = ''A-B'', secret_value = Some ''first''\<rparr>"
  let ?k1 = "\<lparr>key = ''K1'', setting_value = Some ''v1''\<rparr>"
  let ?k2 = \<open>\<lparr>key = ''K2'', setting_value = Some ''{"uri":""}''\<rparr>\<close>
  let ?k3 = "\<lparr>key = ''K3'', setting_value = Some ''v3''\<rparr>"
  have v1: "?vault = or_empty (env ?a ''AZURE_KEY_VAULT_ENDPOINT'')" by (simp add: started_def)
  have v2: "?c = DefaultAzureCredential (env ?a ''AZURE_CLIENT_ID'')" by (simp add: started_def)
  have v3: "listPropertiesOfSecrets sample ?vault ?c = ([\<lparr>name = ''A-B''\<rparr>] @ [\<lparr>name = ''C-D''\<rparr>], None)"
    by (simp add: sample_def sample_secrets_def)
  have v4: "map (\<lambda>p. getSecret sample ?vault ?c (Some (name p))) [\<lparr>name = ''A-B''\<rparr>] = map Inr [?s1]"
    by (simp add: sample_def sample_secret_def)
  have v5: "\<exists>p post. [\<lparr>name = ''C-D''\<rparr>] = p # post \<and> getSecret sample ?vault ?c (Some (name p)) = Inl denied"
    by (simp add: sample_def sample_secret_def)
  have a1: "?store = or_empty (env ?a ''AZURE_APPCONFIGURATION_ENDPOINT'')" by (simp add: started_def)
  have a3: "listConfigurationSettings sample ?store ?c = ([?k1] @ [?k2, ?k3], None)"
    by (simp add: sample_def sample_settings_def)
  have lit: "\<not> isKeyVaultReference sample ?k1" by code_simp
  have loop: "settings_loop_kvref sample ?c [?k1] ?a = (None, set_env ''K1'' (Some ''v1'') ?a)"
    using lit by simp
  have a4: "fst (settings_loop_kvref sample ?c [?k1] ?a) = None" using loop by simp
  have ref: "isKeyVaultReference sample ?k2" by code_simp
  have thrown: "fst (getSecretFromKeyVault sample ?k2 ?c ?a) = Inl (not_a_reference ?k2)" by code_simp
  have a5: "\<exists>s post. [?k2, ?k3] = s # post \<and> truthy (setting_value s) \<and> isKeyVaultReference sample s \<and>
        fst (getSecretFromKeyVault sample s ?c ?a) = Inl (not_a_reference ?k2)"
    using ref thrown by simp
  have filt: "[t \<leftarrow> [?k1]. key t = ''K1'' \<and> truthy (setting_value t)] = [?k1]" by simp
  have v0: "?vault \<noteq> []" and a0: "?store \<noteq> []" by simp_all
  note both = population_is_not_atomic [where X = sample and st = ?a and c = ?c and ep = ?vault
      and pre = "[\<lparr>name = ''A-B''\<rparr>]" and rest = "[\<lparr>name = ''C-D''\<rparr>]" and failure = None
      and secrets = "[?s1]" and err = denied and ep' = ?store and pre' = "[?k1]"
      and rest' = "[?k2, ?k3]" and failure' = None and err' = "not_a_reference ?k2"]
  from both v0 v1 v2 v3 v4 v5
  have kv: "fst (populateEnvironmentFromKeyVault sample ?a) = Some denied"
    and kv_env: "env (snd (populateEnvironmentFromKeyVault sample ?a)) =
        write_all (\<lambda>s. replace_dashes (secret_name s)) secret_value [?s1] (env ?a)"
    by blast+
  from both a0 a1 v2 a3 a4 a5
  have ac: "fst (populateEnvironmentFromAppConfig_kvref sample ?a) = Some (not_a_reference ?k2)"
    and ac_env: "env (snd (populateEnvironmentFromAppConfig_kvref sample ?a)) =
        env (snd (settings_loop_kvref sample ?c [?k1] ?a))"
    by blast+
  from kv_env have "env (snd (populateEnvironmentFromKeyVault sample ?a)) ''A_B'' = Some ''first''"
    by (simp add: replace_dashes_def assign_env_def c_string_def valid_name_def)
  moreover from ac_env loop
  have "env (snd (populateEnvironmentFromAppConfig_kvref sample ?a)) ''K1'' = Some ''v1''"
    and "env (snd (populateEnvironmentFromAppConfig_kvref sample ?a)) ''K3'' = None"
    by (simp_all add: started_def assign_env_def c_string_def valid_name_def)
  ultimately show ?thesis using kv ac by simp
qed

text \<open>
  The claim as stated fails on the store \<^verbatim>\<open>skipping-ac\<close>, whose enumeration yields
  \<^verbatim>\<open>K0\<close> with an empty value, \<^verbatim>\<open>A=B\<close> and \<^verbatim>\<open>K1\<close>, and then fails: when the error
  propagates \<^verbatim>\<open>K0\<close> still holds what it held before and \<^verbatim>\<open>A=B\<close> is not set, though both
  entries were processed before the failure; only \<^verbatim>\<open>K1\<close> has been written.
\<close>

theorem population_is_not_atomic_counterexample:
  "listConfigurationSettings sample ''https://skipping-ac.azconfig.io'' (DefaultAzureCredential None) =
     ([\<lparr>key = ''K0'', setting_value = Some []\<rparr>,
       \<lparr>key = ''A=B'', setting_value = Some ''x''\<rparr>,
       \<lparr>key = ''K1'', setting_value = Some ''v1''\<rparr>], Some denied) \<and>
   fst (populateEnvironmentFromAppConfig_kvref sample
      (started [(''AZURE_APPCONFIGURATION_ENDPOINT'', ''https://skipping-ac.azconfig.io''),
                (''K0'', ''old'')])) = Some denied \<and>
   env (snd (populateEnvironmentFromAppConfig_kvref sample
      (started [(''AZURE_APPCONFIGURATION_ENDPOINT'', ''https://skipping-ac.azconfig.io''),
                (''K0'', ''old'')]))) ''K0'' = Some ''old'' \<and>
   env (snd (populateEnvironmentFromAppConfig_kvref sample
      (started [(''AZURE_APPCONFIGURATION_ENDPOINT'', ''https://skipping-ac.azconfig.io''),
                (''K0'', ''old'')]))) ''A=B'' = None \<and>
   env (snd (populateEnvironmentFromAppConfig_kvref sample
      (started [(''AZURE_APPCONFIGURATION_ENDPOINT'', ''https://skipping-ac.azconfig.io''),
                (''K0'', ''old'')]))) ''K1'' = Some ''v1''"
  by code_simp

subsection \<open>The calls each operation makes\<close>

lemma secrets_loop_calls:
  "\<exists>tr. calls (snd (secrets_loop X ep c ps st)) = calls st @ tr \<and> source_of ` set tr \<subseteq> {SecretStore}"
proof (induction ps arbitrary: st)
  case Nil
  then show ?case by simp
next
  case (Cons p ps)
  let ?st1 = "called (GetSecret ep c (Some (name p))) st"
  show ?case
  proof (cases "getSecret X ep c (Some (name p))")
    case (Inl err)
    then have "calls (snd (secrets_loop X ep c (p # ps) st)) = calls st @ [GetSecret ep c (Some (name p))]"
      by (simp add: Let_def)
    then show ?thesis by auto
  next
    case (Inr secret)
    from Cons [of "set_env (replace_dashes (secret_name secret)) (secret_value secret) ?st1"]
    obtain tr where "calls (snd (secrets_loop X ep c ps
        (set_env (replace_dashes (secret_name secret)) (secret_value secret) ?st1))) =
        calls st @ GetSecret ep c (Some (name p)) # tr" and "source_of ` set tr \<subseteq> {SecretStore}"
      by auto
    with Inr have "calls (snd (secrets_loop X ep c (p # ps) st)) = calls st @ (GetSecret ep c (Some (name p)) # tr) \<and>
        source_of ` set (GetSecret ep c (Some (name p)) # tr) \<subseteq> {SecretStore}"
      by (simp add: Let_def)
    then show ?thesis by blast
  qed
qed

lemma populateEnvironmentFromKeyVault_calls:
  "\<exists>tr. calls (snd (populateEnvironmentFromKeyVault X st)) = calls st @ tr \<and>
        source_of ` set tr \<subseteq> {SecretStore}"
proof (cases "or_empty (env st ''AZURE_KEY_VAULT_ENDPOINT'') = []")
  case True
  then have "calls (snd (populateEnvironmentFromKeyVault X st)) = calls st @ []"
    by (simp add: populateEnvironmentFromKeyVault_def)
  then show ?thesis by auto
next
  case False
  let ?ep = "or_empty (env st ''AZURE_KEY_VAULT_ENDPOINT'')"
  let ?c = "DefaultAzureCredential (env st ''AZURE_CLIENT_ID'')"
  let ?st2 = "called (ListPropertiesOfSecrets ?ep ?c)
                (logger Info ''Populating environment from Azure KeyVault...'' st)"
  obtain ps failure where l: "listPropertiesOfSecrets X ?ep ?c = (ps, failure)"
    by (cases "listPropertiesOfSecrets X ?ep ?c")
  from secrets_loop_calls [of X ?ep ?c ps ?st2] obtain tr where
    "calls (snd (secrets_loop X ?ep ?c ps ?st2)) = calls st @ ListPropertiesOfSecrets ?ep ?c # tr"
    and "source_of ` set tr \<subseteq> {SecretStore}" by auto
  then have "calls (snd (populateEnvironmentFromKeyVault X st)) = calls st @ (ListPropertiesOfSecrets ?ep ?c # tr) \<and>
      source_of ` set (ListPropertiesOfSecrets ?ep ?c # tr) \<subseteq> {SecretStore}"
    by (simp add: populateEnvironmentFromKeyVault_unfold [OF refl False refl l])
  then show ?thesis by blast
qed

lemma populateEnvironmentFromAppConfig_calls:
  "\<exists>tr. calls (snd (populateEnvironmentFromAppConfig X st)) = calls st @ tr \<and>
        source_of ` set tr \<subseteq> {ConfigStore}"
proof (cases "or_empty (env st ''AZURE_APPCONFIGURATION_ENDPOINT'') = []")
  case True
  then have "calls (snd (populateEnvironmentFromAppConfig X st)) = calls st @ []"
    by (simp add: populateEnvironmentFromAppConfig_def)
  then show ?thesis by auto
next
  case False
  let ?ep = "or_empty (env st ''AZURE_APPCONFIGURATION_ENDPOINT'')"
  let ?c = "DefaultAzureCredential (env st ''AZURE_CLIENT_ID'')"
  obtain ss failure where l: "listConfigurationSettings X ?ep ?c = (ss, failure)"
    by (cases "listConfigurationSettings X ?ep ?c")
  from populateEnvironmentFromAppConfig_result [OF refl False refl l]
  have "calls (snd (populateEnvironmentFromAppConfig X st)) = calls st @ [ListConfigurationSettings ?ep ?c] \<and>
      source_of ` set [ListConfigurationSettings ?ep ?c] \<subseteq> {ConfigStore}"
    by simp
  then show ?thesis by blast
qed

text \<open>The state in which the combined variant starts its populations.\<close>

lemma local_step_calls:
  "\<exists>tr. calls (if env init ''NODE_ENV'' \<noteq> Some ''production'' then dotenv_config X init else init) =
          calls init @ tr \<and> source_of ` set tr \<subseteq> {Local}"
proof (cases "env init ''NODE_ENV'' \<noteq> Some ''production''")
  case True
  then have "calls (if env init ''NODE_ENV'' \<noteq> Some ''production'' then dotenv_config X init else init) =
          calls init @ [DotenvConfig] \<and> source_of ` set [DotenvConfig] \<subseteq> {Local}" by simp
  then show ?thesis by blast
next
  case False
  then have "calls (if env init ''NODE_ENV'' \<noteq> Some ''production'' then dotenv_config X init else init) =
          calls init @ [] \<and> source_of ` set ([] :: call list) \<subseteq> {Local}" by simp
  then show ?thesis by blast
qed

lemma getConfig_secret_store_fails:
  assumes "populateEnvironmentFromKeyVault X
             (if env init ''NODE_ENV'' \<noteq> Some ''production'' then dotenv_config X init else init) = (Some err, mid)"
  shows "getConfig X init = (Inl err, mid) \<and>
         (\<exists>tr. calls mid = calls init @ tr \<and> source_of ` set tr \<subseteq> {Local, SecretStore})"
proof -
  let ?before = "if env init ''NODE_ENV'' \<noteq> Some ''production'' then dotenv_config X init else init"
  from local_step_calls [of init X] obtain t1 where
    t1: "calls ?before = calls init @ t1" "source_of ` set t1 \<subseteq> {Local}" by blast
  from populateEnvironmentFromKeyVault_calls [of X ?before] assms obtain t2 where
    t2: "calls mid = calls ?before @ t2" "source_of ` set t2 \<subseteq> {SecretStore}" by auto
  from t1 t2 have "calls mid = calls init @ (t1 @ t2) \<and> source_of ` set (t1 @ t2) \<subseteq> {Local, SecretStore}"
    by auto
  then have "\<exists>tr. calls mid = calls init @ tr \<and> source_of ` set tr \<subseteq> {Local, SecretStore}" by blast
  with assms show ?thesis by (simp add: getConfig_def Let_def)
qed

lemma getConfig_config_store_fails:
  assumes "populateEnvironmentFromKeyVault X
             (if env init ''NODE_ENV'' \<noteq> Some ''production'' then dotenv_config X init else init) = (None, mid)"
    and "populateEnvironmentFromAppConfig X mid = (Some err, final)"
  shows "getConfig X init = (Inl err, final) \<and>
         (\<exists>tr. calls final = calls init @ tr \<and> source_of ` set tr \<subseteq> {Local, SecretStore, ConfigStore})"
proof -
  let ?before = "if env init ''NODE_ENV'' \<noteq> Some ''production'' then dotenv_config X init else init"
  from local_step_calls [of init X] obtain t1 where
    t1: "calls ?before = calls init @ t1" "source_of ` set t1 \<subseteq> {Local}" by blast
  from populateEnvironmentFromKeyVault_calls [of X ?before] assms(1) obtain t2 where
    t2: "calls mid = calls ?before @ t2" "source_of ` set t2 \<subseteq> {SecretStore}" by auto
  from populateEnvironmentFromAppConfig_calls [of X mid] assms(2) obtain t3 where
    t3: "calls final = calls mid @ t3" "source_of ` set t3 \<subseteq> {ConfigStore}" by auto
  from t1 t2 t3 have "calls final = calls init @ (t1 @ t2 @ t3) \<and>
      source_of ` set (t1 @ t2 @ t3) \<subseteq> {Local, SecretStore, ConfigStore}"
    by auto
  then have "\<exists>tr. calls final = calls init @ tr \<and> source_of ` set tr \<subseteq> {Local, SecretStore, ConfigStore}"
    by blast
  with assms show ?thesis by (simp add: getConfig_def Let_def)
qed

lemma no_schema_call:
  "source_of ` set tr \<subseteq> {Local, SecretStore, ConfigStore} \<Longrightarrow> ConfigGet section \<notin> set tr"
proof
  assume sub: "source_of ` set tr \<subseteq> {Local, SecretStore, ConfigStore}" and "ConfigGet section \<in> set tr"
  then have "source_of (ConfigGet section) \<in> {Local, SecretStore, ConfigStore}" by blast
  then show False by simp
qed

lemma populateEnvironmentFromKeyVault_fails:
  assumes "ep = or_empty (env st ''AZURE_KEY_VAULT_ENDPOINT'')" and "ep \<noteq> []"
    and "c = DefaultAzureCredential (env st ''AZURE_CLIENT_ID'')"
    and "listPropertiesOfSecrets X ep c = (ps, failure)"
    and "failure \<noteq> None \<or> (\<exists>p \<in> set ps. isl (getSecret X ep c (Some (name p))))"
  shows "\<exists>err. (failure = Some err \<or> (\<exists>p \<in> set ps. getSecret X ep c (Some (name p)) = Inl err)) \<and>
           fst (populateEnvironmentFromKeyVault X st) = Some err"
proof -
  let ?f = "\<lambda>p. getSecret X ep c (Some (name p))"
  let ?st2 = "called (ListPropertiesOfSecrets ep c)
                (logger Info ''Populating environment from Azure KeyVault...'' st)"
  note unfold = populateEnvironmentFromKeyVault_unfold [OF assms(1-4)]
  from retrievals_cases [of ?f ps] show ?thesis
  proof
    assume "\<exists>secrets. map ?f ps = map Inr secrets"
    then obtain secrets where all: "map ?f ps = map Inr secrets" by blast
    have "\<not> isl (?f p)" if "p \<in> set ps" for p
    proof -
      from that have "?f p \<in> set (map ?f ps)" by simp
      with all have "?f p \<in> set (map Inr secrets)" by simp
      then show ?thesis by auto
    qed
    with assms(5) obtain err where f: "failure = Some err" by auto
    with unfold secrets_loop_ok [OF all, of ?st2]
    have "fst (populateEnvironmentFromKeyVault X st) = Some err" by simp
    with f show ?thesis by blast
  next
    assume "\<exists>pre p post secrets err. ps = pre @ p # post \<and> map ?f pre = map Inr secrets \<and> ?f p = Inl err"
    then obtain pre p post secrets err where
      ps: "ps = pre @ p # post" and pre: "map ?f pre = map Inr secrets" and p: "?f p = Inl err"
      by blast
    from unfold ps secrets_loop_fails [OF pre p, of post ?st2]
    have "fst (populateEnvironmentFromKeyVault X st) = Some err" by simp
    moreover from ps p have "\<exists>p \<in> set ps. ?f p = Inl err" by auto
    ultimately show ?thesis by blast
  qed
qed

subsection \<open>Failures of the remote stores\<close>

text \<open>
  C4. In the combined variant, when the vault endpoint is set and the enumeration of the
  secrets or the retrieval of one of them fails, \<open>populateEnvironmentFromKeyVault\<close> raises
  one of these errors, as the SDK threw it, and \<open>getConfig\<close> raises the same: the only
  calls made are to the local file and the secret store, none to the schema accessor.
  Likewise when the secrets are populated, the configuration store's endpoint is set
  and its enumeration fails: \<open>getConfig\<close> raises that error before any call to the schema
  accessor.
\<close>

theorem remote_failure_aborts_startup:
  "(before = (if env init ''NODE_ENV'' \<noteq> Some ''production'' then dotenv_config X init else init) \<and>
    ep = or_empty (env before ''AZURE_KEY_VAULT_ENDPOINT'') \<and> ep \<noteq> [] \<and>
    c = DefaultAzureCredential (env before ''AZURE_CLIENT_ID'') \<and>
    listPropertiesOfSecrets X ep c = (ps, failure) \<and>
    (failure \<noteq> None \<or> (\<exists>p \<in> set ps. isl (getSecret X ep c (Some (name p)))))
    \<longrightarrow>
      (\<exists>err tr. (failure = Some err \<or> (\<exists>p \<in> set ps. getSecret X ep c (Some (name p)) = Inl err)) \<and>
         fst (populateEnvironmentFromKeyVault X before) = Some err \<and>
         fst (getConfig X init) = Inl err \<and>
         calls (snd (getConfig X init)) = calls init @ tr \<and>
         source_of ` set tr \<subseteq> {Local, SecretStore} \<and>
         (\<forall>section. ConfigGet section \<notin> set tr)))
   \<and>
   (populateEnvironmentFromKeyVault X
      (if env init ''NODE_ENV'' \<noteq> Some ''production'' then dotenv_config X init else init) = (None, mid) \<and>
    ep' = or_empty (env mid ''AZURE_APPCONFIGURATION_ENDPOINT'') \<and> ep' \<noteq> [] \<and>
    c' = DefaultAzureCredential (env mid ''AZURE_CLIENT_ID'') \<and>
    listConfigurationSettings X ep' c' = (ss, Some err')
    \<longrightarrow>
      (\<exists>tr. fst (populateEnvironmentFromAppConfig X mid) = Some err' \<and>
         fst (getConfig X init) = Inl err' \<and>
         calls (snd (getConfig X init)) = calls init @ tr \<and>
         source_of ` set tr \<subseteq> {Local, SecretStore, ConfigStore} \<and>
         (\<forall>section. ConfigGet section \<notin> set tr)))"
proof (intro conjI impI)
  assume h: "before = (if env init ''NODE_ENV'' \<noteq> Some ''production'' then dotenv_config X init else init) \<and>
    ep = or_empty (env before ''AZURE_KEY_VAULT_ENDPOINT'') \<and> ep \<noteq> [] \<and>
    c = DefaultAzureCredential (env before ''AZURE_CLIENT_ID'') \<and>
    listPropertiesOfSecrets X ep c = (ps, failure) \<and>
    (failure \<noteq> None \<or> (\<exists>p \<in> set ps. isl (getSecret X ep c (Some (name p)))))"
  then have h1: "ep = or_empty (env before ''AZURE_KEY_VAULT_ENDPOINT'')" and h2: "ep \<noteq> []"
    and h3: "c = DefaultAzureCredential (env before ''AZURE_CLIENT_ID'')"
    and h4: "listPropertiesOfSecrets X ep c = (ps, failure)"
    and h5: "failure \<noteq> None \<or> (\<exists>p \<in> set ps. isl (getSecret X ep c (Some (name p))))"
    and b: "before = (if env init ''NODE_ENV'' \<noteq> Some ''production'' then dotenv_config X init else init)"
    by blast+
  from populateEnvironmentFromKeyVault_fails [OF h1 h2 h3 h4 h5] obtain err where
    which: "failure = Some err \<or> (\<exists>p \<in> set ps. getSecret X ep c (Some (name p)) = Inl err)"
    and kv: "fst (populateEnvironmentFromKeyVault X before) = Some err" by blast
  obtain mid' where "populateEnvironmentFromKeyVault X before = (Some err, mid')"
    using kv by (cases "populateEnvironmentFromKeyVault X before") simp
  with b have "populateEnvironmentFromKeyVault X
      (if env init ''NODE_ENV'' \<noteq> Some ''production'' then dotenv_config X init else init) = (Some err, mid')"
    by simp
  from getConfig_secret_store_fails [OF this] obtain tr where
    g: "getConfig X init = (Inl err, mid')" and tr: "calls mid' = calls init @ tr"
    and src: "source_of ` set tr \<subseteq> {Local, SecretStore}" by blast
  from src have "source_of ` set tr \<subseteq> {Local, SecretStore, ConfigStore}" by blast
  then have "\<forall>section. ConfigGet section \<notin> set tr" using no_schema_call by blast
  with which kv g tr src
  show "\<exists>err tr. (failure = Some err \<or> (\<exists>p \<in> set ps. getSecret X ep c (Some (name p)) = Inl err)) \<and>
         fst (populateEnvironmentFromKeyVault X before) = Some err \<and>
         fst (getConfig X init) = Inl err \<and>
         calls (snd (getConfig X init)) = calls init @ tr \<and>
         source_of ` set tr \<subseteq> {Local, SecretStore} \<and>
         (\<forall>section. ConfigGet section \<notin> set tr)"
    by auto
next
  assume h: "populateEnvironmentFromKeyVault X
      (if env init ''NODE_ENV'' \<noteq> Some ''production'' then dotenv_config X init else init) = (None, mid) \<and>
    ep' = or_empty (env mid ''AZURE_APPCONFIGURATION_ENDPOINT'') \<and> ep' \<noteq> [] \<and>
    c' = DefaultAzureCredential (env mid ''AZURE_CLIENT_ID'') \<and>
    listConfigurationSettings X ep' c' = (ss, Some err')"
  then have kv: "populateEnvironmentFromKeyVault X
      (if env init ''NODE_ENV'' \<noteq> Some ''production'' then dotenv_config X init else init) = (None, mid)"
    and h1: "ep' = or_empty (env mid ''AZURE_APPCONFIGURATION_ENDPOINT'')" and h2: "ep' \<noteq> []"
    and h3: "c' = DefaultAzureCredential (env mid ''AZURE_CLIENT_ID'')"
    and h4: "listConfigurationSettings X ep' c' = (ss, Some err')"
    by blast+
  from populateEnvironmentFromAppConfig_result [OF h1 h2 h3 h4]
  have ac: "fst (populateEnvironmentFromAppConfig X mid) = Some err'" by simp
  then obtain final where "populateEnvironmentFromAppConfig X mid = (Some err', final)"
    by (cases "populateEnvironmentFromAppConfig X mid") simp
  from getConfig_config_store_fails [OF kv this] obtain tr where
    g: "getConfig X init = (Inl err', final)" and tr: "calls final = calls init @ tr"
    and src: "source_of ` set tr \<subseteq> {Local, SecretStore, ConfigStore}" by blast
  from src have "\<forall>section. ConfigGet section \<notin> set tr" using no_schema_call by blast
  with ac g tr src
  show "\<exists>tr. fst (populateEnvironmentFromAppConfig X mid) = Some err' \<and>
         fst (getConfig X init) = Inl err' \<and>
         calls (snd (getConfig X init)) = calls init @ tr \<and>
         source_of ` set tr \<subseteq> {Local, SecretStore, ConfigStore} \<and>
         (\<forall>section. ConfigGet section \<notin> set tr)"
    by auto
qed

text \<open>
  On the sample: the vault \<^verbatim>\<open>locked-kv\<close> refuses a secret, the store \<^verbatim>\<open>flaky-ac\<close> fails
  while it is enumerated; both times \<open>getConfig\<close> raises the refusal and the schema
  accessor is not called.
\<close>

theorem remote_failure_aborts_startup_witness:
  "fst (getConfig sample (started [(''AZURE_KEY_VAULT_ENDPOINT'', ''https://locked-kv.vault.azure.net'')])) =
     Inl denied \<and>
   (\<exists>tr. calls (snd (getConfig sample
             (started [(''AZURE_KEY_VAULT_ENDPOINT'', ''https://locked-kv.vault.azure.net'')]))) =
           calls (started [(''AZURE_KEY_VAULT_ENDPOINT'', ''https://locked-kv.vault.azure.net'')]) @ tr \<and>
         (\<forall>section. ConfigGet section \<notin> set tr)) \<and>
   fst (getConfig sample (started [(''NODE_ENV'', ''production''),
      (''AZURE_APPCONFIGURATION_ENDPOINT'', ''https://flaky-ac.azconfig.io'')])) = Inl denied \<and>
   (\<exists>tr. calls (snd (getConfig sample (started [(''NODE_ENV'', ''production''),
             (''AZURE_APPCONFIGURATION_ENDPOINT'', ''https://flaky-ac.azconfig.io'')]))) =
           calls (started [(''NODE_ENV'', ''production''),
             (''AZURE_APPCONFIGURATION_ENDPOINT'', ''https://flaky-ac.azconfig.io'')]) @ tr \<and>
         (\<forall>section. ConfigGet section \<notin> set tr))"
proof -
  let ?a = "started [(''AZURE_KEY_VAULT_ENDPOINT'', ''https://locked-kv.vault.azure.net'')]"
  let ?b = "dotenv_config sample ?a"
  let ?vault = "''https://locked-kv.vault.azure.net''"
  let ?c = "DefaultAzureCredential None"
  let ?ps = "[\<lparr>name = ''A-B''\<rparr>, \<lparr>name = ''C-D''\<rparr>]"
  have k0: "?b = (if env ?a ''NODE_ENV'' \<noteq> Some ''production'' then dotenv_config sample ?a else ?a)"
    by (simp add: started_def)
  have k1: "?vault = or_empty (env ?b ''AZURE_KEY_VAULT_ENDPOINT'')"
    by (simp add: started_def sample_def assign_env_def c_string_def valid_name_def)
  have k2: "?vault \<noteq> []" by simp
  have k3: "?c = DefaultAzureCredential (env ?b ''AZURE_CLIENT_ID'')"
    by (simp add: started_def sample_def assign_env_def c_string_def valid_name_def)
  have k4: "listPropertiesOfSecrets sample ?vault ?c = (?ps, None)"
    by (simp add: sample_def sample_secrets_def)
  have k5: "None \<noteq> (None :: js_error option) \<or>
      (\<exists>p \<in> set ?ps. isl (getSecret sample ?vault ?c (Some (name p))))"
    by (simp add: sample_def sample_secret_def)
  have only: "getSecret sample ?vault ?c (Some (name p)) = Inl err \<Longrightarrow> err = denied" for p err
    by (simp add: sample_def sample_secret_def split: if_splits)
  note first = remote_failure_aborts_startup [where X = sample and init = ?a and before = ?b
      and ep = ?vault and c = ?c and ps = ?ps and failure = None, THEN conjunct1, rule_format]
  have "\<exists>err tr. (None = Some err \<or> (\<exists>p \<in> set ?ps. getSecret sample ?vault ?c (Some (name p)) = Inl err)) \<and>
         fst (populateEnvironmentFromKeyVault sample ?b) = Some err \<and>
         fst (getConfig sample ?a) = Inl err \<and>
         calls (snd (getConfig sample ?a)) = calls ?a @ tr \<and>
         source_of ` set tr \<subseteq> {Local, SecretStore} \<and>
         (\<forall>section. ConfigGet section \<notin> set tr)"
    using first k0 k1 k2 k3 k4 k5 by blast
  then obtain err tr where "\<exists>p \<in> set ?ps. getSecret sample ?vault ?c (Some (name p)) = Inl err"
    and g: "fst (getConfig sample ?a) = Inl err" "calls (snd (getConfig sample ?a)) = calls ?a @ tr"
      "\<forall>section. ConfigGet section \<notin> set tr"
    by blast
  with only have "err = denied" by blast
  with g have part1: "fst (getConfig sample ?a) = Inl denied \<and>
      (\<exists>tr. calls (snd (getConfig sample ?a)) = calls ?a @ tr \<and> (\<forall>section. ConfigGet section \<notin> set tr))"
    by blast
  let ?p = "started [(''NODE_ENV'', ''production''),
      (''AZURE_APPCONFIGURATION_ENDPOINT'', ''https://flaky-ac.azconfig.io'')]"
  let ?mid = "snd (populateEnvironmentFromKeyVault sample ?p)"
  let ?store = "''https://flaky-ac.azconfig.io''"
  have m0: "populateEnvironmentFromKeyVault sample
      (if env ?p ''NODE_ENV'' \<noteq> Some ''production'' then dotenv_config sample ?p else ?p) = (None, ?mid)"
    by (simp add: started_def populateEnvironmentFromKeyVault_def)
  have menv: "env ?mid = env ?p"
    by (simp add: started_def populateEnvironmentFromKeyVault_def)
  have m1: "?store = or_empty (env ?mid ''AZURE_APPCONFIGURATION_ENDPOINT'')"
    by (simp add: menv) (simp add: started_def)
  have m2: "?store \<noteq> []" by simp
  have m3: "?c = DefaultAzureCredential (env ?mid ''AZURE_CLIENT_ID'')"
    by (simp add: menv) (simp add: started_def)
  have m4: "listConfigurationSettings sample ?store ?c = ([\<lparr>key = ''K1'', setting_value = Some ''v1''\<rparr>], Some denied)"
    by (simp add: sample_def sample_settings_def)
  note second = remote_failure_aborts_startup [where X = sample and init = ?p and mid = ?mid
      and ep' = ?store and c' = ?c and ss = "[\<lparr>key = ''K1'', setting_value = Some ''v1''\<rparr>]"
      and err' = denied, THEN conjunct2, rule_format]
  have part2: "fst (getConfig sample ?p) = Inl denied \<and>
      (\<exists>tr. calls (snd (getConfig sample ?p)) = calls ?p @ tr \<and> (\<forall>section. ConfigGet section \<notin> set tr))"
    using second m0 m1 m2 m3 m4 by blast
  from part1 part2 show ?thesis by blast
qed

subsection \<open>Order of the two populations\<close>

text \<open>
  C5, as amended. In the combined variant, when the population from the vault has
  returned and the configuration store is enumerated to its end, \<open>getConfig\<close> returns,
  and the environment is the one the vault population left with every setting of the
  store assigned onto it, in order. A key of the store, read up to its first NUL
  character, that is not empty and has no \<^verbatim>\<open>=\<close> holds the value, up to its first NUL
  character, of the last setting whose key reads as that name, whatever the vault had
  put there; every other name is as the vault population left it. No call before the
  vault population returns goes to the configuration store, and no call after it goes
  to the secret store.
\<close>

theorem config_store_overwrites_secrets:
  assumes "populateEnvironmentFromKeyVault X
             (if env init ''NODE_ENV'' \<noteq> Some ''production'' then dotenv_config X init else init) = (None, mid)"
    and "ep = or_empty (env mid ''AZURE_APPCONFIGURATION_ENDPOINT'')" and "ep \<noteq> []"
    and "c = DefaultAzureCredential (env mid ''AZURE_CLIENT_ID'')"
    and "listConfigurationSettings X ep c = (ss, None)"
  shows "\<exists>config final early late.
           getConfig X init = (Inr config, final) \<and>
           env final = write_all key setting_value ss (env mid) \<and>
           (\<forall>s \<in> set ss. valid_name (c_string (key s)) \<longrightarrow>
              env final (c_string (key s)) =
                Some (c_string (js_String (setting_value
                  (last [t \<leftarrow> ss. c_string (key t) = c_string (key s)]))))) \<and>
           (\<forall>n. \<not> valid_name n \<or> [t \<leftarrow> ss. c_string (key t) = n] = [] \<longrightarrow> env final n = env mid n) \<and>
           calls mid = calls init @ early \<and> ConfigStore \<notin> source_of ` set early \<and>
           calls final = calls mid @ late \<and> SecretStore \<notin> source_of ` set late \<and>
           ListConfigurationSettings ep c \<in> set late"
proof -
  let ?before = "if env init ''NODE_ENV'' \<noteq> Some ''production'' then dotenv_config X init else init"
  note ac = populateEnvironmentFromAppConfig_result [OF assms(2-5)]
  obtain fin where p: "populateEnvironmentFromAppConfig X mid = (None, fin)"
    using ac by (cases "populateEnvironmentFromAppConfig X mid") simp
  with ac have env3: "env fin = write_all key setting_value ss (env mid)"
    and calls3: "calls fin = calls mid @ [ListConfigurationSettings ep c]" by simp_all
  let ?final = "snd (loadConfiguration X fin)"
  let ?late = "[ListConfigurationSettings ep c, ConfigGet ''database'', ConfigGet ''observability'']"
  have g: "getConfig X init = (Inr (fst (loadConfiguration X fin)), ?final)"
    using assms(1) p by (simp add: getConfig_def Let_def split: prod.splits)
  have envf: "env ?final = write_all key setting_value ss (env mid)"
    using env3 by (simp add: loadConfiguration_env)
  have wins: "\<forall>s \<in> set ss. valid_name (c_string (key s)) \<longrightarrow>
              env ?final (c_string (key s)) =
                Some (c_string (js_String (setting_value
                  (last [t \<leftarrow> ss. c_string (key t) = c_string (key s)]))))"
  proof (intro ballI impI)
    fix s
    assume "s \<in> set ss" and valid: "valid_name (c_string (key s))"
    then have "[t \<leftarrow> ss. c_string (key t) = c_string (key s)] \<noteq> []"
      by (auto simp: filter_empty_conv)
    from write_all_lookup [OF valid this] envf
    show "env ?final (c_string (key s)) =
                Some (c_string (js_String (setting_value
                  (last [t \<leftarrow> ss. c_string (key t) = c_string (key s)]))))"
      by simp
  qed
  have others: "\<forall>n. \<not> valid_name n \<or> [t \<leftarrow> ss. c_string (key t) = n] = [] \<longrightarrow> env ?final n = env mid n"
    using envf write_all_other [where xs = ss and kf = key and vf = setting_value and e = "env mid"]
    by simp
  from local_step_calls [of init X] obtain t1 where
    t1: "calls ?before = calls init @ t1" "source_of ` set t1 \<subseteq> {Local}" by blast
  from populateEnvironmentFromKeyVault_calls [of X ?before] assms(1) obtain t2 where
    t2: "calls mid = calls ?before @ t2" "source_of ` set t2 \<subseteq> {SecretStore}" by auto
  from t1 t2 have early: "calls mid = calls init @ (t1 @ t2)" "ConfigStore \<notin> source_of ` set (t1 @ t2)"
    by auto
  have late: "calls ?final = calls mid @ ?late" "SecretStore \<notin> source_of ` set ?late"
    "ListConfigurationSettings ep c \<in> set ?late"
    using calls3 by (simp_all add: loadConfiguration_calls)
  from g envf wins others early late show ?thesis by blast
qed

text \<open>
  On the sample: the vault sets \<^verbatim>\<open>A_B\<close> to \<^verbatim>\<open>second\<close>, the configuration store has a setting
  \<^verbatim>\<open>A_B\<close>, and \<open>getConfig\<close> leaves \<^verbatim>\<open>A_B\<close> at the store's \<^verbatim>\<open>from-config\<close>.
\<close>

theorem config_store_overwrites_secrets_witness:
  "env (snd (populateEnvironmentFromKeyVault sample
      (started [(''NODE_ENV'', ''production''),
                (''AZURE_KEY_VAULT_ENDPOINT'', ''https://todo-kv.vault.azure.net''),
                (''AZURE_APPCONFIGURATION_ENDPOINT'', ''https://todo-ac.azconfig.io'')]))) ''A_B'' = Some ''second'' \<and>
   \<not> isl (fst (getConfig sample
      (started [(''NODE_ENV'', ''production''),
                (''AZURE_KEY_VAULT_ENDPOINT'', ''https://todo-kv.vault.azure.net''),
                (''AZURE_APPCONFIGURATION_ENDPOINT'', ''https://todo-ac.azconfig.io'')]))) \<and>
   env (snd (getConfig sample
      (started [(''NODE_ENV'', ''production''),
                (''AZURE_KEY_VAULT_ENDPOINT'', ''https://todo-kv.vault.azure.net''),
                (''AZURE_APPCONFIGURATION_ENDPOINT'', ''https://todo-ac.azconfig.io'')]))) ''A_B'' = Some ''from-config''"
proof -
  let ?a = "started [(''NODE_ENV'', ''production''),
                (''AZURE_KEY_VAULT_ENDPOINT'', ''https://todo-kv.vault.azure.net''),
                (''AZURE_APPCONFIGURATION_ENDPOINT'', ''https://todo-ac.azconfig.io'')]"
  let ?mid = "snd (populateEnvironmentFromKeyVault sample ?a)"
  let ?c = "DefaultAzureCredential None"
  let ?store = "''https://todo-ac.azconfig.io''"
  let ?k = "\<lparr>key = ''A_B'', setting_value = Some ''from-config''\<rparr>"
  have kv: "fst (populateEnvironmentFromKeyVault sample ?a) = None" by code_simp
  have h1: "populateEnvironmentFromKeyVault sample
      (if env ?a ''NODE_ENV'' \<noteq> Some ''production'' then dotenv_config sample ?a else ?a) = (None, ?mid)"
    using kv by (simp add: started_def prod_eq_iff)
  have h2: "?store = or_empty (env ?mid ''AZURE_APPCONFIGURATION_ENDPOINT'')" by code_simp
  have h3: "?store \<noteq> []" by simp
  have h4: "?c = DefaultAzureCredential (env ?mid ''AZURE_CLIENT_ID'')" by code_simp
  have h5: "listConfigurationSettings sample ?store ?c = (fst (sample_settings ?store), None)"
    by (simp add: sample_def sample_settings_def)
  have last_one: "?k \<in> set (fst (sample_settings ?store))"
    by (simp add: sample_settings_def)
  from config_store_overwrites_secrets [OF h1 h2 h3 h4 h5] obtain config final where
    g: "getConfig sample ?a = (Inr config, final)"
    and w: "\<forall>s \<in> set (fst (sample_settings ?store)). valid_name (c_string (key s)) \<longrightarrow>
              env final (c_string (key s)) =
                Some (c_string (js_String (setting_value
                  (last [t \<leftarrow> fst (sample_settings ?store). c_string (key t) = c_string (key s)]))))"
    by blast
  from w last_one have "valid_name (c_string (key ?k)) \<longrightarrow>
      env final (c_string (key ?k)) =
        Some (c_string (js_String (setting_value
          (last [t \<leftarrow> fst (sample_settings ?store). c_string (key t) = c_string (key ?k)]))))"
    by blast
  then have "env final ''A_B'' = Some ''from-config''"
    by (simp add: sample_settings_def c_string_def valid_name_def)
  moreover have "env ?mid ''A_B'' = Some ''second''" by code_simp
  ultimately show ?thesis using g by simp
qed

text \<open>
  The claim as stated fails on the vault \<^verbatim>\<open>odd-kv\<close> with the store \<^verbatim>\<open>odd-ac\<close>. Both
  produce the key \<^verbatim>\<open>Bin_Key\<close>, and what is left there is the store's value cut before
  its NUL character, not the store's value; both produce the key \<^verbatim>\<open>A=B\<close>, and nothing
  is left there.
\<close>

theorem config_store_overwrites_secrets_counterexample:
  "listConfigurationSettings sample ''https://odd-ac.azconfig.io'' (DefaultAzureCredential None) =
     ([\<lparr>key = ''A=B'', setting_value = Some ''x''\<rparr>,
       \<lparr>key = ''Bin_Key'', setting_value = Some (''c'' @ [CHR 0x00] @ ''d'')\<rparr>], None) \<and>
   \<not> isl (fst (getConfig sample
      (started [(''NODE_ENV'', ''production''),
                (''AZURE_KEY_VAULT_ENDPOINT'', ''https://odd-kv.vault.azure.net''),
                (''AZURE_APPCONFIGURATION_ENDPOINT'', ''https://odd-ac.azconfig.io'')]))) \<and>
   env (snd (getConfig sample
      (started [(''NODE_ENV'', ''production''),
                (''AZURE_KEY_VAULT_ENDPOINT'', ''https://odd-kv.vault.azure.net''),
                (''AZURE_APPCONFIGURATION_ENDPOINT'', ''https://odd-ac.azconfig.io'')]))) ''Bin_Key'' = Some ''c'' \<and>
   env (snd (getConfig sample
      (started [(''NODE_ENV'', ''production''),
                (''AZURE_KEY_VAULT_ENDPOINT'', ''https://odd-kv.vault.azure.net''),
                (''AZURE_APPCONFIGURATION_ENDPOINT'', ''https://odd-ac.azconfig.io'')]))) ''A=B'' = None"
  by code_simp

subsection \<open>Settings that are no reference\<close>

lemma not_reference_iff:
  assumes "setting_value s = Some v" and "v \<noteq> []"
  shows "\<not> isKeyVaultReference X s \<longleftrightarrow>
     (isl (JSON_parse X v) \<or> (\<exists>j. JSON_parse X v = Inr j \<and> (\<forall>u. get_uri j \<noteq> Some (JStr u))))"
proof -
  have uri: "typeof_string r \<longleftrightarrow> (\<exists>u. r = Some (JStr u))" for r
    by (cases r rule: typeof_string.cases) simp_all
  have obj: "json_truthy j" if "get_uri j = Some x" for j x
    using that by (cases j) simp_all
  show ?thesis
  proof (cases "JSON_parse X v")
    case (Inl err)
    with assms show ?thesis by (simp add: isKeyVaultReference_def)
  next
    case (Inr j)
    with assms obj [of j] show ?thesis
      by (auto simp: isKeyVaultReference_def uri)
  qed
qed

text \<open>
  C7, as amended. A setting whose value is not empty and either fails to parse or parses
  to a value without a string \<^verbatim>\<open>uri\<close> is no reference: the loop assigns its value to its
  key, makes no call and raises nothing at it. The assignment reads the key up to its
  first NUL character; when that name is not empty and has no \<^verbatim>\<open>=\<close> it then holds the
  value up to its first NUL character, and otherwise the environment is left as it was.
  A setting whose value is empty or undefined is skipped: nothing is assigned and nothing
  is raised.
\<close>

theorem malformed_reference_is_literal:
  "(setting_value s = Some v \<and> v \<noteq> [] \<and>
    (isl (JSON_parse X v) \<or> (\<exists>j. JSON_parse X v = Inr j \<and> (\<forall>u. get_uri j \<noteq> Some (JStr u))))
    \<longrightarrow>
      \<not> isKeyVaultReference X s \<and>
      settings_loop_kvref X c [s] st = (None, set_env (key s) (Some v) st) \<and>
      env (snd (settings_loop_kvref X c [s] st)) = assign_env (key s) v (env st) \<and>
      (valid_name (c_string (key s)) \<longrightarrow>
         env (snd (settings_loop_kvref X c [s] st)) (c_string (key s)) = Some (c_string v)) \<and>
      (\<not> valid_name (c_string (key s)) \<longrightarrow>
         env (snd (settings_loop_kvref X c [s] st)) = env st) \<and>
      settings_loop_kvref X c (s # rest) st =
        settings_loop_kvref X c rest (set_env (key s) (Some v) st))
   \<and>
   (\<not> truthy (setting_value s)
    \<longrightarrow>
      settings_loop_kvref X c [s] st = (None, st) \<and>
      settings_loop_kvref X c (s # rest) st = settings_loop_kvref X c rest st)"
proof (intro conjI impI)
  assume h: "setting_value s = Some v \<and> v \<noteq> [] \<and>
    (isl (JSON_parse X v) \<or> (\<exists>j. JSON_parse X v = Inr j \<and> (\<forall>u. get_uri j \<noteq> Some (JStr u))))"
  then have v: "setting_value s = Some v" and ne: "v \<noteq> []" by blast+
  from h not_reference_iff [OF v ne, of X] show lit: "\<not> isKeyVaultReference X s" by blast
  from v ne lit show "settings_loop_kvref X c [s] st = (None, set_env (key s) (Some v) st)"
    by simp
  then show stored: "env (snd (settings_loop_kvref X c [s] st)) = assign_env (key s) v (env st)"
    by simp
  show "env (snd (settings_loop_kvref X c [s] st)) (c_string (key s)) = Some (c_string v)"
    if "valid_name (c_string (key s))"
    using that stored by (simp add: assign_env_apply)
  show "env (snd (settings_loop_kvref X c [s] st)) = env st"
    if "\<not> valid_name (c_string (key s))"
    using that stored by (simp add: assign_env_def)
  from v ne lit show "settings_loop_kvref X c (s # rest) st =
        settings_loop_kvref X c rest (set_env (key s) (Some v) st)"
    by simp
next
  assume "\<not> truthy (setting_value s)"
  then show "settings_loop_kvref X c [s] st = (None, st)"
    and "settings_loop_kvref X c (s # rest) st = settings_loop_kvref X c rest st"
    by simp_all
qed

text \<open>
  On the sample store: the instrumentation key is no JSON, and is assigned as it is;
  the setting of empty value is skipped.
\<close>

theorem malformed_reference_is_literal_witness:
  "isl (JSON_parse sample ''InstrumentationKey=abc'') \<and>
   settings_loop_kvref sample (DefaultAzureCredential None)
     [\<lparr>key = ''APPLICATIONINSIGHTS_CONNECTION_STRING'', setting_value = Some ''InstrumentationKey=abc''\<rparr>]
     (started []) =
     (None, set_env ''APPLICATIONINSIGHTS_CONNECTION_STRING'' (Some ''InstrumentationKey=abc'') (started [])) \<and>
   settings_loop_kvref sample (DefaultAzureCredential None)
     [\<lparr>key = ''API_ALLOW_ORIGINS'', setting_value = Some []\<rparr>] (started []) = (None, started [])"
proof -
  let ?s = "\<lparr>key = ''APPLICATIONINSIGHTS_CONNECTION_STRING'', setting_value = Some ''InstrumentationKey=abc''\<rparr>"
  let ?e = "\<lparr>key = ''API_ALLOW_ORIGINS'', setting_value = Some []\<rparr>"
  have p: "isl (JSON_parse sample ''InstrumentationKey=abc'')" by code_simp
  have v: "setting_value ?s = Some ''InstrumentationKey=abc''" and ne: "''InstrumentationKey=abc'' \<noteq> []"
    by simp_all
  have f: "\<not> truthy (setting_value ?e)" by simp
  note lit = malformed_reference_is_literal [where X = sample and s = ?s and v = "''InstrumentationKey=abc''"
      and c = "DefaultAzureCredential None" and st = "started []", THEN conjunct1, rule_format]
  note skip = malformed_reference_is_literal [where X = sample and s = ?e
      and c = "DefaultAzureCredential None" and st = "started []", THEN conjunct2, rule_format]
  have "settings_loop_kvref sample (DefaultAzureCredential None) [?s] (started []) =
      (None, set_env (key ?s) (Some ''InstrumentationKey=abc'') (started []))"
    using lit p v ne by blast
  moreover have "settings_loop_kvref sample (DefaultAzureCredential None) [?e] (started []) = (None, started [])"
    using skip f by blast
  ultimately show ?thesis using p by simp
qed

text \<open>
  The claim as stated fails at the empty string: it does not parse as JSON, and the loop
  leaves the key at its earlier value instead of assigning the empty string. It also
  fails at a value with a NUL character, which does not parse as JSON and is assigned
  cut before that character, not verbatim.
\<close>

theorem malformed_reference_is_literal_counterexample:
  "isl (JSON_parse sample []) \<and>
   settings_loop_kvref sample (DefaultAzureCredential None)
     [\<lparr>key = ''API_ALLOW_ORIGINS'', setting_value = Some []\<rparr>]
     (started [(''API_ALLOW_ORIGINS'', ''old'')]) = (None, started [(''API_ALLOW_ORIGINS'', ''old'')]) \<and>
   env (snd (settings_loop_kvref sample (DefaultAzureCredential None)
     [\<lparr>key = ''API_ALLOW_ORIGINS'', setting_value = Some []\<rparr>]
     (started [(''API_ALLOW_ORIGINS'', ''old'')]))) ''API_ALLOW_ORIGINS'' = Some ''old'' \<and>
   env (snd (settings_loop_kvref sample (DefaultAzureCredential None)
     [\<lparr>key = ''API_ALLOW_ORIGINS'', setting_value = Some []\<rparr>]
     (started [(''API_ALLOW_ORIGINS'', ''old'')]))) ''API_ALLOW_ORIGINS'' \<noteq> Some [] \<and>
   isl (JSON_parse sample (''c'' @ [CHR 0x00] @ ''d'')) \<and>
   fst (settings_loop_kvref sample (DefaultAzureCredential None)
     [\<lparr>key = ''Bin_Key'', setting_value = Some (''c'' @ [CHR 0x00] @ ''d'')\<rparr>] (started [])) = None \<and>
   env (snd (settings_loop_kvref sample (DefaultAzureCredential None)
     [\<lparr>key = ''Bin_Key'', setting_value = Some (''c'' @ [CHR 0x00] @ ''d'')\<rparr>] (started []))) ''Bin_Key'' =
     Some ''c''"
proof -
  have "isl (JSON_parse sample [])" and "isl (JSON_parse sample (''c'' @ [CHR 0x00] @ ''d''))"
    by code_simp+
  moreover have "fst (settings_loop_kvref sample (DefaultAzureCredential None)
     [\<lparr>key = ''Bin_Key'', setting_value = Some (''c'' @ [CHR 0x00] @ ''d'')\<rparr>] (started [])) = None"
    and "env (snd (settings_loop_kvref sample (DefaultAzureCredential None)
     [\<lparr>key = ''Bin_Key'', setting_value = Some (''c'' @ [CHR 0x00] @ ''d'')\<rparr>] (started []))) ''Bin_Key'' =
     Some ''c''"
    by code_simp+
  ultimately show ?thesis by (simp add: started_def)
qed

subsection \<open>References\<close>

lemma reference_by_uri:
  assumes "setting_value s = Some v" and "v \<noteq> []"
    and "JSON_parse X v = Inr obj" and "get_uri obj = Some (JStr u)"
  shows "isKeyVaultReference X s" and "truthy (setting_value s)"
proof -
  from assms(4) obtain kvs where "obj = JObj kvs" by (cases obj) simp_all
  with assms show "isKeyVaultReference X s" by (simp add: isKeyVaultReference_def)
  from assms show "truthy (setting_value s)" by simp
qed

text \<open>
  C8. A setting whose value parses to an object with the empty string as \<^verbatim>\<open>uri\<close> is
  identified as a reference, and its resolution raises the error
  \<^verbatim>\<open>does not contain a valid Key Vault reference\<close>: the loop stops there with that error,
  assigns nothing to the key and makes no call.
\<close>

theorem incomplete_reference_raises:
  assumes "setting_value s = Some v" and "v \<noteq> []"
    and "JSON_parse X v = Inr obj" and "get_uri obj = Some (JStr [])"
  shows "isKeyVaultReference X s \<and>
         getSecretFromKeyVault X s c st =
           (Inl (JsError ''Error'' (''AppConfiguration setting '' @ key s @
              '' does not contain a valid Key Vault reference'')), st) \<and>
         settings_loop_kvref X c (s # rest) st =
           (Some (JsError ''Error'' (''AppConfiguration setting '' @ key s @
              '' does not contain a valid Key Vault reference'')), st)"
proof -
  note ref = reference_by_uri [OF assms]
  note raised = getSecretFromKeyVault_empty_uri [OF assms, of c st]
  from ref raised show ?thesis by (simp add: not_a_reference_def)
qed

text \<open>
  On the sample store \<^verbatim>\<open>broken-ac\<close> the branch is reached: the population raises the
  error at \<^verbatim>\<open>K2\<close> and \<^verbatim>\<open>K2\<close> is not set.
\<close>

theorem incomplete_reference_raises_witness:
  \<open>JSON_parse sample ''{"uri":""}'' = Inr (JObj [(''uri'', JStr [])]) \<and>
   isKeyVaultReference sample \<lparr>key = ''K2'', setting_value = Some ''{"uri":""}''\<rparr> \<and>
   settings_loop_kvref sample (DefaultAzureCredential None)
     [\<lparr>key = ''K2'', setting_value = Some ''{"uri":""}''\<rparr>, \<lparr>key = ''K3'', setting_value = Some ''v3''\<rparr>]
     (started []) =
     (Some (JsError ''Error'' ''AppConfiguration setting K2 does not contain a valid Key Vault reference''),
      started [])\<close>
proof -
  let ?s = \<open>\<lparr>key = ''K2'', setting_value = Some ''{"uri":""}''\<rparr>\<close>
  have p: \<open>JSON_parse sample ''{"uri":""}'' = Inr (JObj [(''uri'', JStr [])])\<close> by code_simp
  have v: \<open>setting_value ?s = Some ''{"uri":""}''\<close> and ne: \<open>''{"uri":""}'' \<noteq> []\<close> by simp_all
  have u: "get_uri (JObj [(''uri'', JStr [])]) = Some (JStr [])" by simp
  from incomplete_reference_raises [OF v ne p u, of "DefaultAzureCredential None" "started []"
      "[\<lparr>key = ''K3'', setting_value = Some ''v3''\<rparr>]"] p
  show ?thesis by simp
qed

text \<open>
  C2, as amended. A setting whose value is not empty and parses to an object with a
  non-empty string \<^verbatim>\<open>uri\<close> is a reference. Its resolution splits the \<^verbatim>\<open>uri\<close> on \<^verbatim>\<open>/\<close>, asks
  the vault at \<^verbatim>\<open>https://\<close> followed by piece 2 for the secret named by piece 4 (each
  \<^verbatim>\<open>undefined\<close> when the \<^verbatim>\<open>uri\<close> has too few pieces), and when the vault answers assigns the
  secret's value to the key, not the JSON text; when the vault refuses, the loop stops
  with that error.
\<close>

theorem reference_resolves_to_secret:
  assumes "setting_value s = Some v" and "v \<noteq> []"
    and "JSON_parse X v = Inr obj" and "get_uri obj = Some (JStr u)" and "u \<noteq> []"
    and "parts = split_slash u"
    and "endpointUrl = ''https://'' @ js_String (index parts 2)"
    and "secretName = index parts 4"
  shows "isKeyVaultReference X s \<and>
         settings_loop_kvref X c (s # rest) st =
           (case getSecret X endpointUrl c secretName of
              Inl err \<Rightarrow> (Some err, called (GetSecret endpointUrl c secretName) st)
            | Inr secret \<Rightarrow>
                settings_loop_kvref X c rest
                  (set_env (key s) (secret_value secret) (called (GetSecret endpointUrl c secretName) st))) \<and>
         (4 < length parts \<longrightarrow> endpointUrl = ''https://'' @ parts ! 2 \<and> secretName = Some (parts ! 4))"
proof -
  note ref = reference_by_uri [OF assms(1-4)]
  note res = getSecretFromKeyVault_reference [OF assms(1-5), of c st]
  have "4 < length parts \<longrightarrow> endpointUrl = ''https://'' @ parts ! 2 \<and> secretName = Some (parts ! 4)"
    using assms(7,8) by (simp add: index_def)
  with ref res assms(6-8) show ?thesis
    by (simp split: sum.splits)
qed

text \<open>
  On the sample store: the setting that refers to \<^verbatim>\<open>mysecret\<close> of \<^verbatim>\<open>myvault\<close> sets its key
  to the value of that secret, asked from \<^verbatim>\<open>https://myvault.vault.azure.net\<close>.
\<close>

theorem reference_resolves_to_secret_witness:
  \<open>JSON_parse sample ''{"uri":"https://myvault.vault.azure.net/secrets/mysecret"}'' =
     Inr (JObj [(''uri'', JStr ''https://myvault.vault.azure.net/secrets/mysecret'')]) \<and>
   split_slash ''https://myvault.vault.azure.net/secrets/mysecret'' =
     [''https:'', [], ''myvault.vault.azure.net'', ''secrets'', ''mysecret''] \<and>
   settings_loop_kvref sample (DefaultAzureCredential None)
     [\<lparr>key = ''AZURE_COSMOS_CONNECTION_STRING'',
       setting_value = Some ''{"uri":"https://myvault.vault.azure.net/secrets/mysecret"}''\<rparr>]
     (started []) =
     (None, set_env ''AZURE_COSMOS_CONNECTION_STRING'' (Some ''mongodb://prod'')
        (called (GetSecret ''https://myvault.vault.azure.net'' (DefaultAzureCredential None) (Some ''mysecret''))
           (started [])))\<close>
proof -
  let ?v = \<open>''{"uri":"https://myvault.vault.azure.net/secrets/mysecret"}''\<close>
  let ?u = "''https://myvault.vault.azure.net/secrets/mysecret''"
  let ?s = "\<lparr>key = ''AZURE_COSMOS_CONNECTION_STRING'', setting_value = Some ?v\<rparr>"
  let ?c = "DefaultAzureCredential None"
  have p: "JSON_parse sample ?v = Inr (JObj [(''uri'', JStr ?u)])" by code_simp
  have v: "setting_value ?s = Some ?v" and ne: "?v \<noteq> []" by simp_all
  have g: "get_uri (JObj [(''uri'', JStr ?u)]) = Some (JStr ?u)" and une: "?u \<noteq> []" by simp_all
  have parts: "[''https:'', [], ''myvault.vault.azure.net'', ''secrets'', ''mysecret''] = split_slash ?u"
    by simp
  have e: "''https://myvault.vault.azure.net'' =
      ''https://'' @ js_String (index [''https:'', [], ''myvault.vault.azure.net'', ''secrets'', ''mysecret''] 2)"
    by (simp add: index_def)
  have n: "Some ''mysecret'' = index [''https:'', [], ''myvault.vault.azure.net'', ''secrets'', ''mysecret''] 4"
    by (simp add: index_def)
  have secret: "getSecret sample ''https://myvault.vault.azure.net'' ?c (Some ''mysecret'') =
      Inr \<lparr>secret_name = ''mysecret'', secret_value = Some ''mongodb://prod''\<rparr>"
    by (simp add: sample_def sample_secret_def)
  have split: "split_slash ?u = [''https:'', [], ''myvault.vault.azure.net'', ''secrets'', ''mysecret'']"
    by simp
  from reference_resolves_to_secret [OF v ne p g une parts e n, of ?c "[]" "started []"]
  have "settings_loop_kvref sample ?c [?s] (started []) =
      (case getSecret sample ''https://myvault.vault.azure.net'' ?c (Some ''mysecret'') of
         Inl err \<Rightarrow> (Some err, called (GetSecret ''https://myvault.vault.azure.net'' ?c (Some ''mysecret'')) (started []))
       | Inr secret \<Rightarrow>
           settings_loop_kvref sample ?c []
             (set_env (key ?s) (secret_value secret)
                (called (GetSecret ''https://myvault.vault.azure.net'' ?c (Some ''mysecret'')) (started []))))"
    by blast
  then have "settings_loop_kvref sample ?c [?s] (started []) =
      (None, set_env ''AZURE_COSMOS_CONNECTION_STRING'' (Some ''mongodb://prod'')
        (called (GetSecret ''https://myvault.vault.azure.net'' ?c (Some ''mysecret'')) (started [])))"
    by (simp only: secret sum.case settings_loop_kvref.simps ConfigurationSetting.simps KeyVaultSecret.simps)
  with p split show ?thesis by blast
qed

text \<open>
  The claim as stated fails where the \<^verbatim>\<open>uri\<close> is the empty string: the value is a JSON
  object with a string \<^verbatim>\<open>uri\<close>, and the resolution raises instead of returning a secret.
\<close>

theorem reference_resolves_to_secret_counterexample:
  \<open>JSON_parse sample ''{"uri":""}'' = Inr (JObj [(''uri'', JStr [])]) \<and>
   fst (getSecretFromKeyVault sample \<lparr>key = ''K2'', setting_value = Some ''{"uri":""}''\<rparr>
     (DefaultAzureCredential None) (started [])) =
     Inl (JsError ''Error'' ''AppConfiguration setting K2 does not contain a valid Key Vault reference'') \<and>
   fst (populateEnvironmentFromAppConfig_kvref sample
     (started [(''AZURE_APPCONFIGURATION_ENDPOINT'', ''https://broken-ac.azconfig.io'')])) =
     Some (JsError ''Error'' ''AppConfiguration setting K2 does not contain a valid Key Vault reference'') \<and>
   env (snd (populateEnvironmentFromAppConfig_kvref sample
     (started [(''AZURE_APPCONFIGURATION_ENDPOINT'', ''https://broken-ac.azconfig.io'')]))) ''K2'' = None\<close>
  by code_simp

subsection \<open>The calls of the reference-resolving variant\<close>








subsection \<open>The runtime mode\<close>




subsection \<open>What the configuration store leaves in the environment\<close>

lemma getConfig_kvref_production:
  assumes "env init ''NODE_ENV'' = Some ''production''"
    and "ep = or_empty (env init ''AZURE_APPCONFIGURATION_ENDPOINT'')" and "ep \<noteq> []"
    and "c = DefaultAzureCredential (env init ''AZURE_CLIENT_ID'')"
    and "listConfigurationSettings X ep c = (ss, None)"
    and "\<not> isl (fst (getConfig_kvref X init))"
  shows "fst (settings_loop_kvref X c ss init) = None \<and>
         env (snd (getConfig_kvref X init)) = env (snd (settings_loop_kvref X c ss init))"
proof -
  let ?st0 = "logger Info (''Loading configuration from '' @ js_String (env init ''NODE_ENV'') @ '' environment...'') init"
  let ?st2 = "called (ListConfigurationSettings ep c)
                (logger Info ''Populating environment from Azure AppConfiguration...'' ?st0)"
  have unfold: "populateEnvironmentFromAppConfig_kvref X ?st0 =
      catch_log_rethrow ''Error authenticating with Azure App Configuration or Keyvault. Ensure your managed identity or service principal has GET/LIST permissions. Error: ''
        (for_await_end None (settings_loop_kvref X c ss ?st2))"
    using populateEnvironmentFromAppConfig_kvref_unfold [of ep ?st0 c X ss None] assms(2-5) by simp
  have same: "fst (settings_loop_kvref X c ss ?st2) = fst (settings_loop_kvref X c ss init) \<and>
      env (snd (settings_loop_kvref X c ss ?st2)) = env (snd (settings_loop_kvref X c ss init))"
    using settings_loop_kvref_independent [of ?st2 init X c ss] by simp
  obtain r st1 where p: "populateEnvironmentFromAppConfig_kvref X ?st0 = (r, st1)"
    by (cases "populateEnvironmentFromAppConfig_kvref X ?st0")
  with assms(1,6) have none: "r = None"
    by (cases r) (simp_all add: getConfig_kvref_def Let_def)
  with p assms(1) have g: "getConfig_kvref X init =
      (Inr (fst (loadConfiguration X st1)), snd (loadConfiguration X st1))"
    by (simp add: getConfig_kvref_def Let_def split: prod.splits)
  from p none unfold have "fst (settings_loop_kvref X c ss ?st2) = None"
    and "env st1 = env (snd (settings_loop_kvref X c ss ?st2))"
    by (cases "settings_loop_kvref X c ss ?st2"; cases "fst (settings_loop_kvref X c ss ?st2)"; simp)+
  with same g show ?thesis by (simp add: loadConfiguration_env)
qed

lemma truthy_value: "truthy x \<Longrightarrow> Some (js_String x) = x"
  by (cases x) simp_all

text \<open>
  C1, as amended. Combined variant: when the store's endpoint is set and its enumeration
  ends, \<open>populateEnvironmentFromAppConfig\<close> raises nothing and assigns every setting, in
  order, the empty string too. Reference-resolving variant, in production, when
  \<open>getConfig_kvref\<close> returns: every setting with a value has been assigned, in order, a
  literal with its value and a reference with the secret it resolves to, and a setting
  of empty value has not. An assignment reads its key up to the first NUL character;
  when that name is not empty and has no \<^verbatim>\<open>=\<close> it stores the value up to the first NUL
  character under it, whatever the name held before, and otherwise it stores nothing.
  So a name holds what the last assignment to it stored, and a name with no assignment
  holds what it held before.
\<close>

theorem store_values_overwrite:
  "(ep = or_empty (env st ''AZURE_APPCONFIGURATION_ENDPOINT'') \<and> ep \<noteq> [] \<and>
    c = DefaultAzureCredential (env st ''AZURE_CLIENT_ID'') \<and>
    listConfigurationSettings X ep c = (ss, None)
    \<longrightarrow>
      fst (populateEnvironmentFromAppConfig X st) = None \<and>
      env (snd (populateEnvironmentFromAppConfig X st)) = write_all key setting_value ss (env st) \<and>
      (\<forall>s \<in> set ss. valid_name (c_string (key s)) \<longrightarrow>
         env (snd (populateEnvironmentFromAppConfig X st)) (c_string (key s)) =
           Some (c_string (js_String (setting_value
             (last [t \<leftarrow> ss. c_string (key t) = c_string (key s)]))))) \<and>
      (\<forall>n. \<not> valid_name n \<or> [t \<leftarrow> ss. c_string (key t) = n] = [] \<longrightarrow>
         env (snd (populateEnvironmentFromAppConfig X st)) n = env st n))
   \<and>
   (env st ''NODE_ENV'' = Some ''production'' \<and>
    ep = or_empty (env st ''AZURE_APPCONFIGURATION_ENDPOINT'') \<and> ep \<noteq> [] \<and>
    c = DefaultAzureCredential (env st ''AZURE_CLIENT_ID'') \<and>
    listConfigurationSettings X ep c = (ss, None) \<and>
    \<not> isl (fst (getConfig_kvref X st))
    \<longrightarrow>
      env (snd (getConfig_kvref X st)) = write_all fst snd (assignments X c ss) (env st) \<and>
      (\<forall>n. (valid_name n \<and> [t \<leftarrow> ss. c_string (key t) = n \<and> truthy (setting_value t)] \<noteq> [] \<and>
          \<not> isKeyVaultReference X (last [t \<leftarrow> ss. c_string (key t) = n \<and> truthy (setting_value t)]) \<longrightarrow>
            env (snd (getConfig_kvref X st)) n =
              map_option c_string (setting_value (last [t \<leftarrow> ss. c_string (key t) = n \<and> truthy (setting_value t)]))) \<and>
           (\<forall>v. valid_name n \<and> [t \<leftarrow> ss. c_string (key t) = n \<and> truthy (setting_value t)] \<noteq> [] \<and>
             isKeyVaultReference X (last [t \<leftarrow> ss. c_string (key t) = n \<and> truthy (setting_value t)]) \<and>
             resolved_value X c (last [t \<leftarrow> ss. c_string (key t) = n \<and> truthy (setting_value t)]) = Inr v \<longrightarrow>
            env (snd (getConfig_kvref X st)) n = Some (c_string (js_String v))) \<and>
           (\<not> valid_name n \<or> [t \<leftarrow> ss. c_string (key t) = n \<and> truthy (setting_value t)] = [] \<longrightarrow>
            env (snd (getConfig_kvref X st)) n = env st n)))"
proof (intro conjI impI allI)
  assume h: "ep = or_empty (env st ''AZURE_APPCONFIGURATION_ENDPOINT'') \<and> ep \<noteq> [] \<and>
    c = DefaultAzureCredential (env st ''AZURE_CLIENT_ID'') \<and>
    listConfigurationSettings X ep c = (ss, None)"
  then have "ep = or_empty (env st ''AZURE_APPCONFIGURATION_ENDPOINT'')" "ep \<noteq> []"
    "c = DefaultAzureCredential (env st ''AZURE_CLIENT_ID'')" "listConfigurationSettings X ep c = (ss, None)"
    by blast+
  note res = populateEnvironmentFromAppConfig_result [OF this]
  from res show "fst (populateEnvironmentFromAppConfig X st) = None" by simp
  from res show kept: "env (snd (populateEnvironmentFromAppConfig X st)) = write_all key setting_value ss (env st)"
    by simp
  show "\<forall>s \<in> set ss. valid_name (c_string (key s)) \<longrightarrow>
         env (snd (populateEnvironmentFromAppConfig X st)) (c_string (key s)) =
           Some (c_string (js_String (setting_value
             (last [t \<leftarrow> ss. c_string (key t) = c_string (key s)]))))"
  proof (intro ballI impI)
    fix s
    assume "s \<in> set ss" and valid: "valid_name (c_string (key s))"
    then have "[t \<leftarrow> ss. c_string (key t) = c_string (key s)] \<noteq> []"
      by (auto simp: filter_empty_conv)
    from write_all_lookup [OF valid this] kept
    show "env (snd (populateEnvironmentFromAppConfig X st)) (c_string (key s)) =
           Some (c_string (js_String (setting_value
             (last [t \<leftarrow> ss. c_string (key t) = c_string (key s)]))))"
      by simp
  qed
  fix n
  assume none: "\<not> valid_name n \<or> [t \<leftarrow> ss. c_string (key t) = n] = []"
  from write_all_other [OF none] kept
  show "env (snd (populateEnvironmentFromAppConfig X st)) n = env st n" by simp
next
  assume h: "env st ''NODE_ENV'' = Some ''production'' \<and>
    ep = or_empty (env st ''AZURE_APPCONFIGURATION_ENDPOINT'') \<and> ep \<noteq> [] \<and>
    c = DefaultAzureCredential (env st ''AZURE_CLIENT_ID'') \<and>
    listConfigurationSettings X ep c = (ss, None) \<and>
    \<not> isl (fst (getConfig_kvref X st))"
  then have "env st ''NODE_ENV'' = Some ''production''"
    "ep = or_empty (env st ''AZURE_APPCONFIGURATION_ENDPOINT'')" "ep \<noteq> []"
    "c = DefaultAzureCredential (env st ''AZURE_CLIENT_ID'')" "listConfigurationSettings X ep c = (ss, None)"
    "\<not> isl (fst (getConfig_kvref X st))"
    by blast+
  note run = getConfig_kvref_production [OF this]
  then have ok: "fst (settings_loop_kvref X c ss st) = None"
    and final: "env (snd (getConfig_kvref X st)) = env (snd (settings_loop_kvref X c ss st))"
    by simp_all
  from final settings_loop_kvref_env [OF ok]
  show "env (snd (getConfig_kvref X st)) = write_all fst snd (assignments X c ss) (env st)" by simp
next
  fix n
  assume h: "env st ''NODE_ENV'' = Some ''production'' \<and>
    ep = or_empty (env st ''AZURE_APPCONFIGURATION_ENDPOINT'') \<and> ep \<noteq> [] \<and>
    c = DefaultAzureCredential (env st ''AZURE_CLIENT_ID'') \<and>
    listConfigurationSettings X ep c = (ss, None) \<and>
    \<not> isl (fst (getConfig_kvref X st))"
  then have "env st ''NODE_ENV'' = Some ''production''"
    "ep = or_empty (env st ''AZURE_APPCONFIGURATION_ENDPOINT'')" "ep \<noteq> []"
    "c = DefaultAzureCredential (env st ''AZURE_CLIENT_ID'')" "listConfigurationSettings X ep c = (ss, None)"
    "\<not> isl (fst (getConfig_kvref X st))"
    by blast+
  note run = getConfig_kvref_production [OF this]
  then have ok: "fst (settings_loop_kvref X c ss st) = None"
    and final: "env (snd (getConfig_kvref X st)) = env (snd (settings_loop_kvref X c ss st))"
    by simp_all
  let ?ts = "[t \<leftarrow> ss. c_string (key t) = n \<and> truthy (setting_value t)]"
  assume lit: "valid_name n \<and> ?ts \<noteq> [] \<and> \<not> isKeyVaultReference X (last ?ts)"
  then have "last ?ts \<in> set ?ts" using last_in_set [of ?ts] by blast
  then have tr: "truthy (setting_value (last ?ts))" by simp
  from lit have v: "valid_name n" and ne: "?ts \<noteq> []" by blast+
  from lit settings_loop_kvref_env_last [OF ok v ne] final
  have "env (snd (getConfig_kvref X st)) n = Some (c_string (js_String (setting_value (last ?ts))))"
    by simp
  with truthy_value [OF tr, symmetric]
  show "env (snd (getConfig_kvref X st)) n = map_option c_string (setting_value (last ?ts))"
    by (cases "setting_value (last ?ts)") simp_all
next
  fix n v
  assume h: "env st ''NODE_ENV'' = Some ''production'' \<and>
    ep = or_empty (env st ''AZURE_APPCONFIGURATION_ENDPOINT'') \<and> ep \<noteq> [] \<and>
    c = DefaultAzureCredential (env st ''AZURE_CLIENT_ID'') \<and>
    listConfigurationSettings X ep c = (ss, None) \<and>
    \<not> isl (fst (getConfig_kvref X st))"
  then have "env st ''NODE_ENV'' = Some ''production''"
    "ep = or_empty (env st ''AZURE_APPCONFIGURATION_ENDPOINT'')" "ep \<noteq> []"
    "c = DefaultAzureCredential (env st ''AZURE_CLIENT_ID'')" "listConfigurationSettings X ep c = (ss, None)"
    "\<not> isl (fst (getConfig_kvref X st))"
    by blast+
  note run = getConfig_kvref_production [OF this]
  then have ok: "fst (settings_loop_kvref X c ss st) = None"
    and final: "env (snd (getConfig_kvref X st)) = env (snd (settings_loop_kvref X c ss st))"
    by simp_all
  let ?ts = "[t \<leftarrow> ss. c_string (key t) = n \<and> truthy (setting_value t)]"
  assume ref: "valid_name n \<and> ?ts \<noteq> [] \<and> isKeyVaultReference X (last ?ts) \<and>
      resolved_value X c (last ?ts) = Inr v"
  then have v: "valid_name n" and ne: "?ts \<noteq> []" by blast+
  from ref settings_loop_kvref_env_last [OF ok v ne] final
  show "env (snd (getConfig_kvref X st)) n = Some (c_string (js_String v))"
    by simp
next
  fix n
  assume h: "env st ''NODE_ENV'' = Some ''production'' \<and>
    ep = or_empty (env st ''AZURE_APPCONFIGURATION_ENDPOINT'') \<and> ep \<noteq> [] \<and>
    c = DefaultAzureCredential (env st ''AZURE_CLIENT_ID'') \<and>
    listConfigurationSettings X ep c = (ss, None) \<and>
    \<not> isl (fst (getConfig_kvref X st))"
  then have "env st ''NODE_ENV'' = Some ''production''"
    "ep = or_empty (env st ''AZURE_APPCONFIGURATION_ENDPOINT'')" "ep \<noteq> []"
    "c = DefaultAzureCredential (env st ''AZURE_CLIENT_ID'')" "listConfigurationSettings X ep c = (ss, None)"
    "\<not> isl (fst (getConfig_kvref X st))"
    by blast+
  note run = getConfig_kvref_production [OF this]
  then have final: "env (snd (getConfig_kvref X st)) = env (snd (settings_loop_kvref X c ss st))"
    by simp
  assume "\<not> valid_name n \<or> [t \<leftarrow> ss. c_string (key t) = n \<and> truthy (setting_value t)] = []"
  then have "\<not> valid_name n \<or> (\<forall>t \<in> set ss. c_string (key t) = n \<longrightarrow> \<not> truthy (setting_value t))"
    by (auto simp: filter_empty_conv)
  from settings_loop_kvref_untouched [OF this, of X c st] final
  show "env (snd (getConfig_kvref X st)) n = env st n" by simp
qed

text \<open>
  On the sample store: the combined variant overwrites \<^verbatim>\<open>API_ALLOW_ORIGINS\<close> with the
  store's empty string; the other variant, in production, sets the instrumentation key
  from the store and leaves \<^verbatim>\<open>API_ALLOW_ORIGINS\<close> as it was.
\<close>

theorem store_values_overwrite_witness:
  "env (snd (populateEnvironmentFromAppConfig sample
     (started [(''AZURE_APPCONFIGURATION_ENDPOINT'', ''https://todo-ac.azconfig.io''),
               (''API_ALLOW_ORIGINS'', ''*'')]))) ''API_ALLOW_ORIGINS'' = Some [] \<and>
   env (snd (getConfig_kvref sample
     (started [(''NODE_ENV'', ''production''),
               (''AZURE_APPCONFIGURATION_ENDPOINT'', ''https://todo-ac.azconfig.io''),
               (''API_ALLOW_ORIGINS'', ''*'')]))) ''APPLICATIONINSIGHTS_CONNECTION_STRING'' =
     Some ''InstrumentationKey=abc'' \<and>
   env (snd (getConfig_kvref sample
     (started [(''NODE_ENV'', ''production''),
               (''AZURE_APPCONFIGURATION_ENDPOINT'', ''https://todo-ac.azconfig.io''),
               (''API_ALLOW_ORIGINS'', ''*'')]))) ''API_ALLOW_ORIGINS'' = Some ''*''"
proof -
  let ?a = "started [(''AZURE_APPCONFIGURATION_ENDPOINT'', ''https://todo-ac.azconfig.io''),
               (''API_ALLOW_ORIGINS'', ''*'')]"
  let ?p = "started [(''NODE_ENV'', ''production''),
               (''AZURE_APPCONFIGURATION_ENDPOINT'', ''https://todo-ac.azconfig.io''),
               (''API_ALLOW_ORIGINS'', ''*'')]"
  let ?store = "''https://todo-ac.azconfig.io''"
  let ?c = "DefaultAzureCredential None"
  let ?ss = "fst (sample_settings ?store)"
  let ?origins = "\<lparr>key = ''API_ALLOW_ORIGINS'', setting_value = Some []\<rparr>"
  let ?insights = "\<lparr>key = ''APPLICATIONINSIGHTS_CONNECTION_STRING'', setting_value = Some ''InstrumentationKey=abc''\<rparr>"
  have a1: "?store = or_empty (env ?a ''AZURE_APPCONFIGURATION_ENDPOINT'')"
    and a2: "?store \<noteq> []"
    and a3: "?c = DefaultAzureCredential (env ?a ''AZURE_CLIENT_ID'')"
    by (simp_all add: started_def)
  have l: "listConfigurationSettings sample ?store ?c = (?ss, None)"
    by (simp add: sample_def sample_settings_def)
  have mem: "?origins \<in> set ?ss" by (simp add: sample_settings_def)
  from store_values_overwrite [where X = sample and st = ?a and ep = ?store and c = ?c and ss = ?ss,
      THEN conjunct1, rule_format] a1 a2 a3 l
  have "\<forall>s \<in> set ?ss. valid_name (c_string (key s)) \<longrightarrow>
         env (snd (populateEnvironmentFromAppConfig sample ?a)) (c_string (key s)) =
           Some (c_string (js_String (setting_value
             (last [t \<leftarrow> ?ss. c_string (key t) = c_string (key s)]))))"
    by blast
  with mem have "valid_name (c_string (key ?origins)) \<longrightarrow>
         env (snd (populateEnvironmentFromAppConfig sample ?a)) (c_string (key ?origins)) =
           Some (c_string (js_String (setting_value
             (last [t \<leftarrow> ?ss. c_string (key t) = c_string (key ?origins)]))))"
    by blast
  then have part1: "env (snd (populateEnvironmentFromAppConfig sample ?a)) ''API_ALLOW_ORIGINS'' = Some []"
    by (simp add: sample_settings_def c_string_def valid_name_def)
  have p0: "env ?p ''NODE_ENV'' = Some ''production''"
    and p1: "?store = or_empty (env ?p ''AZURE_APPCONFIGURATION_ENDPOINT'')"
    and p3: "?c = DefaultAzureCredential (env ?p ''AZURE_CLIENT_ID'')"
    and old: "env ?p ''API_ALLOW_ORIGINS'' = Some ''*''"
    by (simp_all add: started_def)
  have ok: "\<not> isl (fst (getConfig_kvref sample ?p))" by code_simp
  have f1: "[t \<leftarrow> ?ss. c_string (key t) = ''APPLICATIONINSIGHTS_CONNECTION_STRING'' \<and> truthy (setting_value t)] = [?insights]"
    by (simp add: sample_settings_def c_string_def)
  have f2: "[t \<leftarrow> ?ss. c_string (key t) = ''API_ALLOW_ORIGINS'' \<and> truthy (setting_value t)] = []"
    by (simp add: sample_settings_def c_string_def)
  have n1: "valid_name ''APPLICATIONINSIGHTS_CONNECTION_STRING''" by (simp add: valid_name_def)
  have lit: "\<not> isKeyVaultReference sample ?insights" by code_simp
  note prod = store_values_overwrite [where X = sample and st = ?p and ep = ?store and c = ?c and ss = ?ss,
      THEN conjunct2, rule_format, OF conjI [OF p0 conjI [OF p1 conjI [OF a2 conjI [OF p3 conjI [OF l ok]]]]]]
  note at = prod [THEN conjunct2, THEN spec]
  from at [where x = "''APPLICATIONINSIGHTS_CONNECTION_STRING''", THEN conjunct1] f1 lit n1
  have "env (snd (getConfig_kvref sample ?p)) ''APPLICATIONINSIGHTS_CONNECTION_STRING'' =
     Some (c_string ''InstrumentationKey=abc'')"
    by simp
  then have part2: "env (snd (getConfig_kvref sample ?p)) ''APPLICATIONINSIGHTS_CONNECTION_STRING'' =
     Some ''InstrumentationKey=abc''"
    by (simp add: c_string_def)
  from at [where x = "''API_ALLOW_ORIGINS''", THEN conjunct2, THEN conjunct2] f2 old
  have part3: "env (snd (getConfig_kvref sample ?p)) ''API_ALLOW_ORIGINS'' = Some ''*''"
    by simp
  from part1 part2 part3 show ?thesis by blast
qed

text \<open>
  The claim as stated fails in the reference-resolving variant at a setting whose value
  is the empty string: in production, with the store enumerated to its end, the key
  keeps the value it had before. It fails in the combined variant on the store \<^verbatim>\<open>odd-ac\<close>:
  the key \<^verbatim>\<open>Bin_Key\<close> holds the store's value cut before its NUL character, and the key
  \<^verbatim>\<open>A=B\<close> is not set.
\<close>

theorem store_values_overwrite_counterexample:
  "env (started [(''NODE_ENV'', ''production''),
                 (''AZURE_APPCONFIGURATION_ENDPOINT'', ''https://todo-ac.azconfig.io''),
                 (''API_ALLOW_ORIGINS'', ''*'')]) ''NODE_ENV'' = Some ''production'' \<and>
   key (fst (listConfigurationSettings sample ''https://todo-ac.azconfig.io'' (DefaultAzureCredential None)) ! 2) =
     ''API_ALLOW_ORIGINS'' \<and>
   setting_value (fst (listConfigurationSettings sample ''https://todo-ac.azconfig.io'' (DefaultAzureCredential None)) ! 2) =
     Some [] \<and>
   snd (listConfigurationSettings sample ''https://todo-ac.azconfig.io'' (DefaultAzureCredential None)) = None \<and>
   \<not> isl (fst (getConfig_kvref sample
     (started [(''NODE_ENV'', ''production''),
               (''AZURE_APPCONFIGURATION_ENDPOINT'', ''https://todo-ac.azconfig.io''),
               (''API_ALLOW_ORIGINS'', ''*'')]))) \<and>
   env (snd (getConfig_kvref sample
     (started [(''NODE_ENV'', ''production''),
               (''AZURE_APPCONFIGURATION_ENDPOINT'', ''https://todo-ac.azconfig.io''),
               (''API_ALLOW_ORIGINS'', ''*'')]))) ''API_ALLOW_ORIGINS'' = Some ''*'' \<and>
   listConfigurationSettings sample ''https://odd-ac.azconfig.io'' (DefaultAzureCredential None) =
     ([\<lparr>key = ''A=B'', setting_value = Some ''x''\<rparr>,
       \<lparr>key = ''Bin_Key'', setting_value = Some (''c'' @ [CHR 0x00] @ ''d'')\<rparr>], None) \<and>
   fst (populateEnvironmentFromAppConfig sample
     (started [(''AZURE_APPCONFIGURATION_ENDPOINT'', ''https://odd-ac.azconfig.io'')])) = None \<and>
   env (snd (populateEnvironmentFromAppConfig sample
     (started [(''AZURE_APPCONFIGURATION_ENDPOINT'', ''https://odd-ac.azconfig.io'')]))) ''Bin_Key'' = Some ''c'' \<and>
   env (snd (populateEnvironmentFromAppConfig sample
     (started [(''AZURE_APPCONFIGURATION_ENDPOINT'', ''https://odd-ac.azconfig.io'')]))) ''A=B'' = None"
  by code_simp

end
